theory Spec2Isabelle
  imports Main "HOL-Library.Sublist" "HOL-Library.Word"
begin

section \<open>The Open Telekom Cloud adapter: data model\<close>

text \<open>
  The adapter of \<^verbatim>\<open>pkg/reg/adapter/opentelekomcloud/adapter.go\<close> talks to the remote
  image repository service over HTTP. Everything outside the adapter's own file is its
  environment: the remote service behind \<^verbatim>\<open>a.client.Do\<close>, and the Go standard library
  (\<^verbatim>\<open>net/http\<close>, \<^verbatim>\<open>encoding/json\<close>, \<^verbatim>\<open>regexp\<close>, the iteration order of a map).
  The embedding takes the environment as parameters, so that every statement about the
  adapter holds whatever the environment does, and threads the state of the remote
  service, together with the log of the requests sent, through every operation.
\<close>

subsection \<open>Errors\<close>

text \<open>
  A Go \<^verbatim>\<open>error\<close> value. \<open>Errorf\<close> is an error built by the adapter with
  \<^verbatim>\<open>fmt.Errorf\<close>, carrying its message; \<open>SyntaxError\<close> is the error of the regexp
  parser with its error code; \<open>External\<close> is any other error handed over by a library or
  by the transport. \<open>OutsideFragment\<close> is not a Go error: the regexp model below answers
  it for a pattern that it does not cover.
\<close>

datatype ErrorCode =
  ErrMissingParen | ErrUnexpectedParen | ErrMissingRepeatArgument | ErrInvalidRepeatOp

datatype error =
  Errorf string | SyntaxError ErrorCode | External string | OutsideFragment

text \<open>A call either returns its results or panics (a nil pointer dereference).\<close>

datatype 'a outcome = Returns 'a | Panics

subsection \<open>Decimal rendering of the status code (the verb \<^verbatim>\<open>%d\<close>)\<close>

definition digit :: "nat \<Rightarrow> char" where
  "digit d = char_of (48 + d)"

fun digits :: "nat \<Rightarrow> string" where
  "digits n = (if n < 10 then [digit n] else digits (n div 10) @ [digit (n mod 10)])"

declare digits.simps [simp del]

definition itoa :: "int \<Rightarrow> string" where
  "itoa i = (if i < 0 then CHR ''-'' # digits (nat (- i)) else digits (nat i))"

text \<open>\<^verbatim>\<open>fmt.Errorf("[%d][%s]", code, string(body))\<close>\<close>

definition Errorf_status :: "int \<Rightarrow> string \<Rightarrow> error" where
  "Errorf_status code body = Errorf (''['' @ itoa code @ '']['' @ body @ '']'')"

subsection \<open>Requests, responses, the remote service\<close>

record request =
  Method :: string
  Url :: string
  Header :: "(string \<times> string) list"
  ReqBody :: "string option"

text \<open>
  A response as the adapter reads it: the status code and the result of
  \<^verbatim>\<open>io.ReadAll(resp.Body)\<close>, which is the bytes read (\<open>Body\<close>) and the error of the read,
  if any (\<open>ReadErr\<close>).
\<close>

record response =
  StatusCode :: int
  Body :: string
  ReadErr :: "error option"

text \<open>
  The world of an operation: the state of the remote service, of any type \<open>'w\<close>, and the
  requests handed to the client so far, oldest first.
\<close>

record 'w world =
  remote :: 'w
  trace :: "request list"

text \<open>
  The adapter struct. \<open>registry_URL\<close> is \<^verbatim>\<open>a.registry.URL\<close>; \<open>client\<close> is the behaviour of
  \<^verbatim>\<open>a.client\<close>: given a request and the state of the remote service it answers a transport
  error or a response, and the next state of the remote service.
\<close>

record 'w adapter =
  registry_URL :: string
  client :: "request \<Rightarrow> 'w \<Rightarrow> (error + response) \<times> 'w"

text \<open>\<^verbatim>\<open>a.client.Do(r)\<close>: the request is logged and answered by the remote service.\<close>

definition Do :: "'w adapter \<Rightarrow> request \<Rightarrow> 'w world \<Rightarrow> (error + response) \<times> 'w world" where
  "Do a r w =
     (case client a r (remote w) of
        (res, s') \<Rightarrow> (res, \<lparr>remote = s', trace = trace w @ [r]\<rparr>))"

subsection \<open>The remote namespace record and the host's namespace\<close>

text \<open>The values of a \<^verbatim>\<open>map[string]interface{}\<close> that the adapter stores.\<close>

datatype val = Int64 "64 word" | GoInt int | Str string

record otcNamespace =
  ID :: "64 word"
  otc_Name :: string
  CreatorName :: string
  DomainPublic :: int
  Auth :: int
  DomainName :: string
  UserCount :: "64 word"
  ImageCount :: "64 word"

definition metadata :: "otcNamespace \<Rightarrow> (string \<rightharpoonup> val)" where
  "metadata ns =
     [''id'' \<mapsto> Int64 (ID ns),
      ''creator_name'' \<mapsto> Str (CreatorName ns),
      ''domain_public'' \<mapsto> GoInt (DomainPublic ns),
      ''auth'' \<mapsto> GoInt (Auth ns),
      ''domain_name'' \<mapsto> Str (DomainName ns),
      ''user_count'' \<mapsto> Int64 (UserCount ns),
      ''image_count'' \<mapsto> Int64 (ImageCount ns)]"

text \<open>
  Modelled from the spec: \<^verbatim>\<open>model.Namespace\<close>, \<^verbatim>\<open>model.NamespaceQuery\<close>,
  \<^verbatim>\<open>model.Resource\<close>, \<^verbatim>\<open>model.ResourceMetadata\<close> and \<^verbatim>\<open>model.Repository\<close> are declared in
  the host's model package, which is not part of these sources. The records keep the
  fields the adapter reads, and a pointer that the adapter dereferences is an option
  (\<open>None\<close> is nil).
\<close>

record Namespace =
  Name :: string
  Metadata :: "string \<rightharpoonup> val"

record NamespaceQuery =
  query_Name :: string

record Repository =
  repo_Name :: string

record ResourceMetadata =
  Repository :: "Repository option"

record Resource =
  res_Metadata :: "ResourceMetadata option"

subsection \<open>The Go library functions the adapter calls\<close>

text \<open>
  \<^item> \<open>url_Parse\<close>: the error of \<^verbatim>\<open>http.NewRequest\<close> on a URL, \<open>None\<close> when the URL parses
    (the methods the adapter passes, GET and POST, are valid);
  \<^item> \<open>Unmarshal_list\<close>, \<open>Unmarshal_ns\<close>: \<^verbatim>\<open>json.Unmarshal\<close> into an
    \<^verbatim>\<open>otcNamespaceList\<close> and into an \<^verbatim>\<open>otcNamespace\<close>;
  \<^item> \<open>Marshal\<close>: \<^verbatim>\<open>json.Marshal\<close> of the struct with the one field \<^verbatim>\<open>namespace\<close>;
  \<^item> \<open>MatchString\<close>: \<^verbatim>\<open>regexp.MatchString(pattern, s)\<close>;
  \<^item> \<open>MapRank\<close>: the order in which \<^verbatim>\<open>range\<close> visits the keys of a map is not
    specified; the keys are visited in the order of an arbitrary ranking, so that every
    order of the keys arises from some ranking.
\<close>

record golib =
  url_Parse :: "string \<Rightarrow> error option"
  Unmarshal_list :: "string \<Rightarrow> error + otcNamespace list"
  Unmarshal_ns :: "string \<Rightarrow> error + otcNamespace"
  Marshal :: "string \<Rightarrow> error + string"
  MatchString :: "string \<Rightarrow> string \<Rightarrow> error + bool"
  MapRank :: "string \<Rightarrow> nat"

text \<open>\<^verbatim>\<open>http.NewRequest(method, url, body)\<close>\<close>

definition http_NewRequest :: "golib \<Rightarrow> string \<Rightarrow> string \<Rightarrow> string option \<Rightarrow> error + request" where
  "http_NewRequest L method url body =
     (case url_Parse L url of
        Some err \<Rightarrow> Inl err
      | None \<Rightarrow> Inr \<lparr>Method = method, Url = url, Header = [], ReqBody = body\<rparr>)"

text \<open>\<^verbatim>\<open>r.Header.Add(key, value)\<close>\<close>

definition Header_Add :: "request \<Rightarrow> string \<Rightarrow> string \<Rightarrow> request" where
  "Header_Add r k v = r\<lparr>Header := Header r @ [(k, v)]\<rparr>"

definition content_type_json :: "request \<Rightarrow> request" where
  "content_type_json r = Header_Add r ''content-type'' ''application/json; charset=utf-8''"

text \<open>\<^verbatim>\<open>strings.Replace(s, " ", "", -1)\<close>: every space character is removed.\<close>

definition strip_spaces :: "string \<Rightarrow> string" where
  "strip_spaces s = filter (\<lambda>c. c \<noteq> CHR '' '') s"

text \<open>\<^verbatim>\<open>strings.Split(s, "/")\<close> for a one-character separator: never the empty list.\<close>

fun strings_Split :: "string \<Rightarrow> char \<Rightarrow> string list" where
  "strings_Split [] sep = [] # []"
| "strings_Split (c # cs) sep =
     (if c = sep then [] # strings_Split cs sep
      else (case strings_Split cs sep of
              [] \<Rightarrow> [c] # []
            | p # ps \<Rightarrow> (c # p) # ps))"

section \<open>Listing namespaces\<close>

definition to_Namespace :: "otcNamespace \<Rightarrow> Namespace" where
  "to_Namespace namespaceData =
     \<lparr>Name = otc_Name namespaceData, Metadata = metadata namespaceData\<rparr>"

text \<open>
  The loop of \<^verbatim>\<open>ListNamespaces\<close> over the decoded records; \<open>namespaces\<close> is the slice built
  so far. An error of the match returns the slice as it is, with a nil error.
\<close>

fun ListNamespaces_loop ::
  "golib \<Rightarrow> string \<Rightarrow> otcNamespace list \<Rightarrow> Namespace list \<Rightarrow> Namespace list \<times> error option" where
  "ListNamespaces_loop L reg [] namespaces = (namespaces, None)"
| "ListNamespaces_loop L reg (namespaceData # rest) namespaces =
     (let namespace = to_Namespace namespaceData in
      case MatchString L reg (Name namespace) of
        Inl err \<Rightarrow> (namespaces, None)
      | Inr b \<Rightarrow>
          if b then ListNamespaces_loop L reg rest (namespaces @ [namespace])
          else ListNamespaces_loop L reg rest namespaces)"

definition ListNamespaces ::
  "golib \<Rightarrow> 'w adapter \<Rightarrow> NamespaceQuery option \<Rightarrow> 'w world \<Rightarrow>
     (Namespace list \<times> error option) outcome \<times> 'w world" where
  "ListNamespaces L a query w =
     (let namespaces = [];
          urls = registry_URL a @ ''/dockyard/v2/visible/namespaces'' in
      case http_NewRequest L ''GET'' urls None of
        Inl err \<Rightarrow> (Returns (namespaces, Some err), w)
      | Inr r0 \<Rightarrow>
          (case Do a (content_type_json r0) w of
             (Inl err, w1) \<Rightarrow> (Returns (namespaces, Some err), w1)
           | (Inr resp, w1) \<Rightarrow>
               let code = StatusCode resp in
               if code \<ge> 300 \<or> code < 200
               then (Returns (namespaces, Some (Errorf_status code (Body resp))), w1)
               else (case ReadErr resp of
                       Some err \<Rightarrow> (Returns (namespaces, Some err), w1)
                     | None \<Rightarrow>
                         (case Unmarshal_list L (Body resp) of
                            Inl err \<Rightarrow> (Returns (namespaces, Some err), w1)
                          | Inr namespacesData \<Rightarrow>
                              (case query of
                                 None \<Rightarrow> (Panics, w1)
                               | Some q \<Rightarrow>
                                   let reg = ''.*'' @ strip_spaces (query_Name q) @ ''.*'' in
                                   (Returns (ListNamespaces_loop L reg namespacesData namespaces),
                                    w1))))))"

section \<open>Looking a namespace up\<close>

text \<open>
  \<^verbatim>\<open>GetNamespace\<close> returns a namespace and an error. The namespace is never nil: with
  an error it is the value the function starts from, with the empty name and an empty
  metadata map.
\<close>

definition GetNamespace ::
  "golib \<Rightarrow> 'w adapter \<Rightarrow> string \<Rightarrow> 'w world \<Rightarrow> (Namespace \<times> error option) \<times> 'w world" where
  "GetNamespace L a namespaceStr w =
     (let namespace = \<lparr>Name = [], Metadata = Map.empty\<rparr>;
          urls = registry_URL a @ ''/dockyard/v2/namespaces/'' @ namespaceStr in
      case http_NewRequest L ''GET'' urls None of
        Inl err \<Rightarrow> ((namespace, Some err), w)
      | Inr r0 \<Rightarrow>
          (case Do a (content_type_json r0) w of
             (Inl err, w1) \<Rightarrow> ((namespace, Some err), w1)
           | (Inr resp, w1) \<Rightarrow>
               let code = StatusCode resp in
               if code \<ge> 300 \<or> code < 200
               then ((namespace, Some (Errorf_status code (Body resp))), w1)
               else (case ReadErr resp of
                       Some err \<Rightarrow> ((namespace, Some err), w1)
                     | None \<Rightarrow>
                         (case Unmarshal_ns L (Body resp) of
                            Inl err \<Rightarrow> ((namespace, Some err), w1)
                          | Inr namespaceData \<Rightarrow>
                              ((namespace\<lparr>Name := otc_Name namespaceData,
                                           Metadata := metadata namespaceData\<rparr>, None), w1)))))"

section \<open>Preparing a push\<close>

text \<open>\<^verbatim>\<open>resource.Metadata.Repository.Name\<close>: \<open>None\<close> when one of the pointers is nil.\<close>

definition repository_name :: "Resource option \<Rightarrow> string option" where
  "repository_name resource =
     (case resource of
        None \<Rightarrow> None
      | Some r \<Rightarrow>
          (case res_Metadata r of
             None \<Rightarrow> None
           | Some m \<Rightarrow>
               (case Repository m of
                  None \<Rightarrow> None
                | Some repo \<Rightarrow> Some (repo_Name repo))))"

text \<open>
  The candidate namespace of a repository name:
  \<^verbatim>\<open>paths := strings.Split(name, "/"); if len(paths) > 0 { namespace = paths[0] }\<close>
\<close>

definition candidate :: "string \<Rightarrow> string" where
  "candidate name =
     (let paths = strings_Split name CHR ''/'' in
      case paths of [] \<Rightarrow> [] | p # ps \<Rightarrow> p)"

text \<open>
  The first loop of \<^verbatim>\<open>PrepareForPush\<close>. The map \<^verbatim>\<open>namespaces\<close>, a set of keys, is the list
  of its keys without repetition. The namespace \<^verbatim>\<open>ns\<close> that \<^verbatim>\<open>GetNamespace\<close> returns is
  never nil, so that the test \<^verbatim>\<open>ns != nil\<close> always holds.
\<close>

fun PrepareForPush_lookups ::
  "golib \<Rightarrow> 'w adapter \<Rightarrow> Resource option list \<Rightarrow> string list \<Rightarrow> 'w world \<Rightarrow>
     (error + string list) outcome \<times> 'w world" where
  "PrepareForPush_lookups L a [] namespaces w = (Returns (Inr namespaces), w)"
| "PrepareForPush_lookups L a (resource # rest) namespaces w =
     (case repository_name resource of
        None \<Rightarrow> (Panics, w)
      | Some name \<Rightarrow>
          (case GetNamespace L a (candidate name) w of
             ((ns, Some err), w1) \<Rightarrow> (Returns (Inl err), w1)
           | ((ns, None), w1) \<Rightarrow>
               if Name ns = candidate name
               then PrepareForPush_lookups L a rest namespaces w1
               else PrepareForPush_lookups L a rest
                      (List.insert (candidate name) namespaces) w1))"

text \<open>The request that creates a namespace, as the second loop builds it.\<close>

definition create_request :: "golib \<Rightarrow> string \<Rightarrow> string \<Rightarrow> error + request" where
  "create_request L url namespace =
     (case Marshal L namespace of
        Inl err \<Rightarrow> Inl err
      | Inr namespacebyte \<Rightarrow>
          (case http_NewRequest L ''POST'' url (Some namespacebyte) of
             Inl err \<Rightarrow> Inl err
           | Inr r0 \<Rightarrow> Inr (content_type_json r0)))"

text \<open>The second loop of \<^verbatim>\<open>PrepareForPush\<close>, over the keys in the order of the iteration.\<close>

fun PrepareForPush_creates ::
  "golib \<Rightarrow> 'w adapter \<Rightarrow> string \<Rightarrow> string list \<Rightarrow> 'w world \<Rightarrow> error option \<times> 'w world" where
  "PrepareForPush_creates L a url [] w = (None, w)"
| "PrepareForPush_creates L a url (namespace # rest) w =
     (case create_request L url namespace of
        Inl err \<Rightarrow> (Some err, w)
      | Inr r \<Rightarrow>
          (case Do a r w of
             (Inl err, w1) \<Rightarrow> (Some err, w1)
           | (Inr resp, w1) \<Rightarrow>
               let code = StatusCode resp in
               if code \<ge> 300 \<or> code < 200
               then (Some (Errorf_status code (Body resp)), w1)
               else PrepareForPush_creates L a url rest w1))"

definition PrepareForPush ::
  "golib \<Rightarrow> 'w adapter \<Rightarrow> Resource option list \<Rightarrow> 'w world \<Rightarrow> error option outcome \<times> 'w world" where
  "PrepareForPush L a resources w =
     (case PrepareForPush_lookups L a resources [] w of
        (Panics, w1) \<Rightarrow> (Panics, w1)
      | (Returns (Inl err), w1) \<Rightarrow> (Returns (Some err), w1)
      | (Returns (Inr namespaces), w1) \<Rightarrow>
          let url = registry_URL a @ ''/dockyard/v2/namespaces'' in
          (case PrepareForPush_creates L a url (sort_key (MapRank L) namespaces) w1 of
             (err, w2) \<Rightarrow> (Returns err, w2)))"

section \<open>Health check\<close>

text \<open>
  Modelled from the spec: the constant \<^verbatim>\<open>model.Healthy\<close> of the host's model package,
  which is not part of these sources; it is the status that the spec calls healthy.
\<close>

definition Healthy :: string where
  "Healthy = ''healthy''"

definition HealthCheck :: "'w adapter \<Rightarrow> 'w world \<Rightarrow> (string \<times> error option) \<times> 'w world" where
  "HealthCheck a w = ((Healthy, None), w)"

section \<open>A fragment of the regexp library\<close>

text \<open>
  \<^verbatim>\<open>regexp.MatchString(pattern, s)\<close> compiles the pattern and reports whether some
  substring of \<open>s\<close> matches it; a pattern that does not compile is an error. The model
  covers the patterns of at most 1000 ASCII characters that are built from literal
  characters, \<^verbatim>\<open>.\<close>, the groups \<^verbatim>\<open>( )\<close>, the alternation \<^verbatim>\<open>|\<close> and the repetitions
  \<^verbatim>\<open>*\<close>, \<^verbatim>\<open>+\<close>, \<^verbatim>\<open>?\<close> with their lazy forms. For every other pattern (an escape, a
  character class, a counted repetition, an anchor, a group that starts with \<^verbatim>\<open>(?\<close>, a
  non-ASCII character, a longer pattern) it answers \<open>OutsideFragment\<close>.
  The parser follows the library's: one pass over the pattern with a stack of open
  groups, the first error found is the error of the pattern.
\<close>

datatype rx =
  Zero | Eps | Lit char | Dot | Cat rx rx | Alt rx rx | Star rx | Plus rx | Quest rx

text \<open>
  What the parser remembers of the previous character: \<open>AfterOpen\<close> after \<^verbatim>\<open>(\<close>,
  \<open>AfterRep\<close> after a repetition operator, \<open>AfterLazy\<close> after the \<^verbatim>\<open>?\<close> that makes a
  repetition lazy.
\<close>

datatype last_token = Normal | AfterOpen | AfterRep | AfterLazy

text \<open>
  A group under construction: the alternatives closed so far by \<^verbatim>\<open>|\<close>, and the items of
  the current concatenation, the last one first.
\<close>

type_synonym frame = "rx option \<times> rx list"

definition close_frame :: "frame \<Rightarrow> rx" where
  "close_frame f =
     (let c = foldr Cat (rev (snd f)) Eps in
      case fst f of None \<Rightarrow> c | Some alts \<Rightarrow> Alt alts c)"

definition repeat_op :: "char \<Rightarrow> rx \<Rightarrow> rx" where
  "repeat_op c r = (if c = CHR ''*'' then Star r else if c = CHR ''+'' then Plus r else Quest r)"

text \<open>The characters that \<^verbatim>\<open>regexp.QuoteMeta\<close> escapes; every other character is a literal.\<close>

definition meta_chars :: string where
  "meta_chars = CHR 0x5C # ''.+*?()|[]{}^$''"

definition plain_char :: "char \<Rightarrow> bool" where
  "plain_char c \<longleftrightarrow> c \<notin> set meta_chars \<and> (of_char c :: nat) < 128"

primrec parse :: "string \<Rightarrow> last_token \<Rightarrow> frame \<Rightarrow> frame list \<Rightarrow> error + rx" where
  "parse [] t f stack =
     (case stack of
        [] \<Rightarrow> Inr (close_frame f)
      | g # gs \<Rightarrow> Inl (SyntaxError ErrMissingParen))"
| "parse (c # cs) t f stack =
     (if c = CHR ''('' then parse cs AfterOpen (None, []) (f # stack)
      else if c = CHR '')'' then
        (case stack of
           [] \<Rightarrow> Inl (SyntaxError ErrUnexpectedParen)
         | g # gs \<Rightarrow> parse cs Normal (fst g, close_frame f # snd g) gs)
      else if c = CHR ''|'' then parse cs Normal (Some (close_frame f), []) stack
      else if c = CHR ''.'' then parse cs Normal (fst f, Dot # snd f) stack
      else if c = CHR ''*'' \<or> c = CHR ''+'' \<or> c = CHR ''?'' then
        (if t = AfterOpen \<and> c = CHR ''?'' then Inl OutsideFragment
         else if t = AfterRep \<and> c = CHR ''?'' then parse cs AfterLazy f stack
         else if t = AfterRep \<or> t = AfterLazy then Inl (SyntaxError ErrInvalidRepeatOp)
         else (case snd f of
                 [] \<Rightarrow> Inl (SyntaxError ErrMissingRepeatArgument)
               | r # rs \<Rightarrow> parse cs AfterRep (fst f, repeat_op c r # rs) stack))
      else if plain_char c then parse cs Normal (fst f, Lit c # snd f) stack
      else Inl OutsideFragment)"

text \<open>Matching by derivatives; \<^verbatim>\<open>.\<close> is any character but the newline.\<close>

fun nullable :: "rx \<Rightarrow> bool" where
  "nullable Zero = False"
| "nullable Eps = True"
| "nullable (Lit c) = False"
| "nullable Dot = False"
| "nullable (Cat r s) = (nullable r \<and> nullable s)"
| "nullable (Alt r s) = (nullable r \<or> nullable s)"
| "nullable (Star r) = True"
| "nullable (Plus r) = nullable r"
| "nullable (Quest r) = True"

fun deriv :: "char \<Rightarrow> rx \<Rightarrow> rx" where
  "deriv c Zero = Zero"
| "deriv c Eps = Zero"
| "deriv c (Lit d) = (if c = d then Eps else Zero)"
| "deriv c Dot = (if c = CHR 0x0A then Zero else Eps)"
| "deriv c (Cat r s) =
     (if nullable r then Alt (Cat (deriv c r) s) (deriv c s) else Cat (deriv c r) s)"
| "deriv c (Alt r s) = Alt (deriv c r) (deriv c s)"
| "deriv c (Star r) = Cat (deriv c r) (Star r)"
| "deriv c (Plus r) = Cat (deriv c r) (Star r)"
| "deriv c (Quest r) = deriv c r"

text \<open>Some prefix of the string matches.\<close>

fun match_prefix :: "rx \<Rightarrow> string \<Rightarrow> bool" where
  "match_prefix r [] = nullable r"
| "match_prefix r (c # cs) = (nullable r \<or> match_prefix (deriv c r) cs)"

text \<open>Some substring of the string matches: the search is not anchored.\<close>

fun search :: "rx \<Rightarrow> string \<Rightarrow> bool" where
  "search r [] = nullable r"
| "search r (c # cs) = (match_prefix r (c # cs) \<or> search r cs)"

definition regexp_MatchString :: "string \<Rightarrow> string \<Rightarrow> error + bool" where
  "regexp_MatchString pattern s =
     (if length pattern > 1000 then Inl OutsideFragment
      else (case parse pattern Normal (None, []) [] of
              Inl err \<Rightarrow> Inl err
            | Inr re \<Rightarrow> Inr (search re s)))"

text \<open>The strings that match a regular expression, to reason about the matcher.\<close>

inductive_set star :: "string set \<Rightarrow> string set" for A :: "string set" where
  star_Nil: "[] \<in> star A"
| star_app: "u \<in> A \<Longrightarrow> v \<in> star A \<Longrightarrow> u @ v \<in> star A"

definition conc :: "string set \<Rightarrow> string set \<Rightarrow> string set" where
  "conc A B = {u @ v |u v. u \<in> A \<and> v \<in> B}"

fun lang :: "rx \<Rightarrow> string set" where
  "lang Zero = {}"
| "lang Eps = {[]}"
| "lang (Lit c) = {[c]}"
| "lang Dot = {[c] |c. c \<noteq> CHR 0x0A}"
| "lang (Cat r s) = conc (lang r) (lang s)"
| "lang (Alt r s) = lang r \<union> lang s"
| "lang (Star r) = star (lang r)"
| "lang (Plus r) = conc (lang r) (star (lang r))"
| "lang (Quest r) = insert [] (lang r)"

section \<open>The wording of the specification\<close>

text \<open>
  The query ``with whitespace removed'', as the specification words it: every white space
  character is removed (space, tab, newline, vertical tab, form feed, carriage return).
\<close>

definition remove_whitespace :: "string \<Rightarrow> string" where
  "remove_whitespace s =
     filter (\<lambda>c. c \<notin> set [CHR '' '', CHR 0x09, CHR 0x0A, CHR 0x0B, CHR 0x0C, CHR 0x0D]) s"

text \<open>
  The ``first non-empty segment'' of a repository name split on the slash, as the
  specification words it; the empty string when every segment is empty.
\<close>

definition first_nonempty_segment :: "string \<Rightarrow> string" where
  "first_nonempty_segment name =
     (case filter (\<lambda>p. p \<noteq> []) (strings_Split name CHR ''/'') of
        [] \<Rightarrow> []
      | p # ps \<Rightarrow> p)"

text \<open>The status codes of success.\<close>

definition is_2xx :: "int \<Rightarrow> bool" where
  "is_2xx code \<longleftrightarrow> 200 \<le> code \<and> code < 300"

text \<open>The requests that create a namespace among a list of requests.\<close>

definition creations :: "request list \<Rightarrow> request list" where
  "creations rs = filter (\<lambda>r. Method r = ''POST'') rs"

text \<open>The requests that an operation has sent: the trace after it without the trace before.\<close>

definition sent :: "'w world \<Rightarrow> 'w world \<Rightarrow> request list" where
  "sent w w' = drop (length (trace w)) (trace w')"

text \<open>The repository names of the resources, and their candidate namespaces.\<close>

definition candidates :: "Resource option list \<Rightarrow> string list" where
  "candidates resources = map candidate (List.map_filter repository_name resources)"

text \<open>
  The namespace \<open>c\<close> exists in the state \<open>s\<close> of the remote service, as the adapter sees
  it: the lookup of \<open>c\<close> succeeds and returns a namespace of that name.
\<close>

definition confirms :: "golib \<Rightarrow> 'w adapter \<Rightarrow> 'w \<Rightarrow> string \<Rightarrow> bool" where
  "confirms L a s c =
     (case fst (GetNamespace L a c \<lparr>remote = s, trace = []\<rparr>) of
        (ns, None) \<Rightarrow> Name ns = c
      | (ns, Some err) \<Rightarrow> False)"

text \<open>
  The requests that the adapter sends for the namespaces of the names \<open>cs\<close>: the lookup
  of one of them, as \<^verbatim>\<open>GetNamespace\<close> builds it, and the creation of one of them.
\<close>

definition lookup_request :: "golib \<Rightarrow> 'w adapter \<Rightarrow> string \<Rightarrow> error + request" where
  "lookup_request L a c =
     (case http_NewRequest L ''GET'' (registry_URL a @ ''/dockyard/v2/namespaces/'' @ c) None of
        Inl err \<Rightarrow> Inl err
      | Inr r0 \<Rightarrow> Inr (content_type_json r0))"

definition sends :: "golib \<Rightarrow> 'w adapter \<Rightarrow> string list \<Rightarrow> request \<Rightarrow> bool" where
  "sends L a cs r \<longleftrightarrow>
     list_ex (\<lambda>c. lookup_request L a c = Inr r \<or>
                  create_request L (registry_URL a @ ''/dockyard/v2/namespaces'') c = Inr r) cs"

text \<open>
  Two properties of a remote service that keeps its namespaces, for the namespaces of the
  names \<open>cs\<close>. None of the requests that the adapter sends for them makes one of them
  disappear (a request that the adapter never sends, such as a deletion, is free to); and
  a request that creates one of them and is answered with a status of success leaves it
  in existence.
\<close>

definition stable :: "golib \<Rightarrow> 'w adapter \<Rightarrow> string list \<Rightarrow> bool" where
  "stable L a cs \<longleftrightarrow>
     (\<forall>r s. sends L a cs r \<longrightarrow>
        (\<forall>c \<in> set cs. confirms L a s c \<longrightarrow> confirms L a (snd (client a r s)) c))"

definition creation_takes_effect :: "golib \<Rightarrow> 'w adapter \<Rightarrow> string list \<Rightarrow> bool" where
  "creation_takes_effect L a cs \<longleftrightarrow>
     (\<forall>r s resp s'. \<forall>c \<in> set cs.
        create_request L (registry_URL a @ ''/dockyard/v2/namespaces'') c = Inr r \<and>
        client a r s = (Inr resp, s') \<and> is_2xx (StatusCode resp) \<longrightarrow> confirms L a s' c)"

text \<open>
  The position of a key in a list of keys: the ranking under which a map with these keys
  is visited in the order of the list.
\<close>

definition position :: "string list \<Rightarrow> string \<Rightarrow> nat" where
  "position p k = length (takeWhile (\<lambda>x. x \<noteq> k) p)"

section \<open>Sample environments\<close>

definition zero_namespace :: otcNamespace where
  "zero_namespace =
     \<lparr>ID = 0, otc_Name = [], CreatorName = [], DomainPublic = 0, Auth = 0,
      DomainName = [], UserCount = 0, ImageCount = 0\<rparr>"

definition named :: "string \<Rightarrow> otcNamespace" where
  "named n = zero_namespace\<lparr>otc_Name := n\<rparr>"

text \<open>The text between a prefix and a suffix.\<close>

definition unwrap :: "string \<Rightarrow> string \<Rightarrow> string \<Rightarrow> string option" where
  "unwrap pre suf b =
     (if prefix pre b \<and> suffix suf (drop (length pre) b)
      then Some (take (length b - length pre - length suf) (drop (length pre) b))
      else None)"

text \<open>
  A sample JSON library. It decodes the empty object to the record of zero values and an
  object with the one member \<^verbatim>\<open>name\<close> to the record of that name; it knows two lists of
  namespaces; it encodes a name as the object with the one member \<^verbatim>\<open>namespace\<close>.
\<close>

definition sample_Unmarshal_ns :: "string \<Rightarrow> error + otcNamespace" where
  \<open>sample_Unmarshal_ns b =
     (if b = ''{}'' then Inr zero_namespace
      else (case unwrap ''{"name":"'' ''"}'' b of
              Some n \<Rightarrow> Inr (named n)
            | None \<Rightarrow> Inl (External ''invalid character'')))\<close>

definition sample_lists :: "(string \<times> otcNamespace list) list" where
  \<open>sample_lists =
     [(''{"namespaces":[{"name":"abc"}]}'', [named ''abc'']),
      (''{"namespaces":[{"name":"devteam"},{"name":"prod"},{"name":"dev-team-x"}]}'',
         [named ''devteam'', named ''prod'', named ''dev-team-x''])]\<close>

definition sample_Unmarshal_list :: "string \<Rightarrow> error + otcNamespace list" where
  "sample_Unmarshal_list b =
     (case map_of sample_lists b of
        Some l \<Rightarrow> Inr l
      | None \<Rightarrow> Inl (External ''invalid character''))"

definition sample_Marshal :: "string \<Rightarrow> error + string" where
  \<open>sample_Marshal n = Inr (''{"namespace":"'' @ n @ ''"}'')\<close>

text \<open>
  The sample library: every URL parses, the regexp library is the fragment above, and a
  map is visited in the order in which its keys were inserted.
\<close>

definition sample_lib :: golib where
  "sample_lib =
     \<lparr>url_Parse = (\<lambda>u. None),
      Unmarshal_list = sample_Unmarshal_list,
      Unmarshal_ns = sample_Unmarshal_ns,
      Marshal = sample_Marshal,
      MatchString = regexp_MatchString,
      MapRank = (\<lambda>k. 0)\<rparr>"

text \<open>A remote service that answers every request with the same result.\<close>

definition reply_adapter :: "error + response \<Rightarrow> unit adapter" where
  "reply_adapter res = \<lparr>registry_URL = ''http://swr'', client = (\<lambda>r s. (res, s))\<rparr>"

definition ok_response :: "string \<Rightarrow> response" where
  "ok_response b = \<lparr>StatusCode = 200, Body = b, ReadErr = None\<rparr>"

definition error_response :: "int \<Rightarrow> string \<Rightarrow> response" where
  "error_response code b = \<lparr>StatusCode = code, Body = b, ReadErr = None\<rparr>"

text \<open>
  A remote service that keeps its namespaces: its state is the list of their names. It
  answers the lookup of a namespace that it holds with the record of that name, and the
  lookup of a namespace that it does not hold with status 200 and the empty object, as
  the mock of the adapter's test does. It creates a new namespace with status 201 and
  refuses to create one that it holds with status 409.
\<close>

definition store_client :: "request \<Rightarrow> string list \<Rightarrow> (error + response) \<times> string list" where
  \<open>store_client r s =
     (if Method r = ''GET'' then
        (case unwrap ''http://swr/dockyard/v2/namespaces/'' [] (Url r) of
           Some n \<Rightarrow>
             (Inr (ok_response (if n \<in> set s then ''{"name":"'' @ n @ ''"}'' else ''{}'')), s)
         | None \<Rightarrow> (Inr (error_response 404 ''no such endpoint''), s))
      else
        (case Option.bind (ReqBody r) (unwrap ''{"namespace":"'' ''"}'') of
           Some n \<Rightarrow>
             if n \<in> set s then (Inr (error_response 409 ''namespace exists''), s)
             else (Inr \<lparr>StatusCode = 201, Body = [], ReadErr = None\<rparr>, s @ [n])
         | None \<Rightarrow> (Inr (error_response 400 ''bad request''), s)))\<close>

definition store_adapter :: "string list adapter" where
  "store_adapter = \<lparr>registry_URL = ''http://swr'', client = store_client\<rparr>"

text \<open>
  A remote service that holds no namespace and refuses to create one: it answers every
  lookup with status 200 and the empty object, and every other request with status 500.
\<close>

definition refusing_adapter :: "unit adapter" where
  \<open>refusing_adapter =
     \<lparr>registry_URL = ''http://swr'',
      client = (\<lambda>r s. if Method r = ''GET'' then (Inr (ok_response ''{}''), s)
                       else (Inr (error_response 500 ''boom''), s))\<rparr>\<close>

text \<open>
  A remote service that keeps its namespaces as the store does, and answers the lookup of
  a namespace that it does not hold with status 404.
\<close>

definition strict_adapter :: "string list adapter" where
  \<open>strict_adapter =
     \<lparr>registry_URL = ''http://swr'',
      client = (\<lambda>r s. case store_client r s of
                         (Inl err, s') \<Rightarrow> (Inl err, s')
                       | (Inr resp, s') \<Rightarrow>
                           if Method r = ''GET'' \<and> Body resp = ''{}''
                           then (Inr (error_response 404 ''not found''), s')
                           else (Inr resp, s'))\<rparr>\<close>

text \<open>
  A remote service that keeps its namespaces as the store does, and answers every lookup
  with status 200 and the empty object, as the mock of the adapter's test does.
\<close>

definition mute_adapter :: "string list adapter" where
  \<open>mute_adapter =
     \<lparr>registry_URL = ''http://swr'',
      client = (\<lambda>r s. if Method r = ''GET'' then (Inr (ok_response ''{}''), s)
                       else store_client r s)\<rparr>\<close>

text \<open>
  A remote service that keeps its namespaces as the store does, and deletes a namespace
  on a DELETE request, which the adapter never sends.
\<close>

definition deleting_adapter :: "string list adapter" where
  \<open>deleting_adapter =
     \<lparr>registry_URL = ''http://swr'',
      client = (\<lambda>r s. if Method r = ''DELETE'' then
                         (case unwrap ''http://swr/dockyard/v2/namespaces/'' [] (Url r) of
                            Some n \<Rightarrow> (Inr \<lparr>StatusCode = 204, Body = [], ReadErr = None\<rparr>, removeAll n s)
                          | None \<Rightarrow> (Inr (error_response 404 ''no such endpoint''), s))
                       else store_client r s)\<rparr>\<close>

text \<open>The world before the first request.\<close>

definition fresh :: "'w \<Rightarrow> 'w world" where
  "fresh s = \<lparr>remote = s, trace = []\<rparr>"

definition resource_of :: "string \<Rightarrow> Resource option" where
  "resource_of name =
     Some \<lparr>res_Metadata = Some \<lparr>Repository = Some \<lparr>repo_Name = name\<rparr>\<rparr>\<rparr>"

section \<open>The order in which a map is visited\<close>

lemma position_nth: "distinct p \<Longrightarrow> i < length p \<Longrightarrow> position p (p ! i) = i"
  unfolding position_def
proof (induction p arbitrary: i)
  case Nil
  then show ?case by simp
next
  case (Cons x p)
  then show ?case by (cases i) auto
qed

lemma position_inj: "distinct p \<Longrightarrow> inj_on (position p) (set p)"
  by (auto simp: inj_on_def in_set_conv_nth position_nth)

lemma map_position: "distinct p \<Longrightarrow> map (position p) p = [0..<length p]"
  by (rule nth_equalityI) (simp_all add: position_nth)

text \<open>
  Every order of the keys of a map is the order of some ranking: the model of the
  iteration leaves no order out.
\<close>

lemma every_order_is_a_ranking:
  assumes "distinct ks" "distinct p" "set p = set ks"
  shows "sort_key (position p) ks = p"
proof -
  let ?f = "position p"
  have inj: "inj_on ?f (set ks)" using position_inj [OF assms(2)] assms(3) by simp
  have "map ?f (sort_key ?f ks) = map ?f p"
  proof (rule sorted_distinct_set_unique)
    show "sorted (map ?f (sort_key ?f ks))" by (rule sorted_sort_key)
    show "distinct (map ?f (sort_key ?f ks))" using assms(1) inj by (simp add: distinct_map)
    show "sorted (map ?f p)" using assms(2) by (simp add: map_position)
    show "distinct (map ?f p)" using assms(2) by (simp add: map_position)
    show "set (map ?f (sort_key ?f ks)) = set (map ?f p)" using assms(3) by simp
  qed
  moreover have "inj_on ?f (set (sort_key ?f ks) \<union> set p)" using inj assms(3) by simp
  ultimately show ?thesis by (simp add: inj_on_map_eq_map)
qed

section \<open>The requests of the operations\<close>

lemma Method_content_type_json [simp]: "Method (content_type_json r) = Method r"
  by (simp add: content_type_json_def Header_Add_def)

lemma http_NewRequest_Method: "http_NewRequest L m u b = Inr r \<Longrightarrow> Method r = m"
  by (auto simp: http_NewRequest_def split: option.splits)

lemma create_request_POST: "create_request L url c = Inr r \<Longrightarrow> Method r = ''POST''"
  by (auto simp: create_request_def split: sum.splits dest: http_NewRequest_Method)

lemma creations_append [simp]: "creations (xs @ ys) = creations xs @ creations ys"
  by (simp add: creations_def)

lemma creations_Nil [simp]: "creations [] = []"
  by (simp add: creations_def)

lemma sent_append [simp]: "trace w' = trace w @ rs \<Longrightarrow> sent w w' = rs"
  by (simp add: sent_def)

lemma Do_trace: "Do a r w = (res, w') \<Longrightarrow> trace w' = trace w @ [r] \<and> remote w' = snd (client a r (remote w))
   \<and> res = fst (client a r (remote w))"
  by (auto simp: Do_def split: prod.splits)

text \<open>GetNamespace sends at most one request, a GET.\<close>

lemma GetNamespace_sent:
  assumes "GetNamespace L a c w = (res, w')"
  shows "\<exists>gs. trace w' = trace w @ gs \<and> creations gs = []"
proof (cases "http_NewRequest L ''GET'' (registry_URL a @ ''/dockyard/v2/namespaces/'' @ c) None")
  case (Inl e)
  with assms show ?thesis by (auto simp: GetNamespace_def)
next
  case (Inr r0)
  obtain rr w1 where d: "Do a (content_type_json r0) w = (rr, w1)" by (cases "Do a (content_type_json r0) w")
  from Do_trace [OF d] have t: "trace w1 = trace w @ [content_type_json r0]" by simp
  from assms Inr d have "w' = w1"
    by (auto simp: GetNamespace_def Let_def split: sum.splits option.splits if_splits)
  moreover have "creations [content_type_json r0] = []"
    using http_NewRequest_Method [OF Inr] by (simp add: creations_def)
  ultimately show ?thesis using t by blast
qed

lemma lookups_sent:
  "PrepareForPush_lookups L a rs ks w = (res, w') \<Longrightarrow> \<exists>gs. trace w' = trace w @ gs \<and> creations gs = []"
proof (induction rs arbitrary: ks w)
  case Nil
  then show ?case by simp
next
  case (Cons r rs)
  show ?case
  proof (cases "repository_name r")
    case None
    with Cons.prems show ?thesis by simp
  next
    case (Some name)
    obtain ns e w1 where g: "GetNamespace L a (candidate name) w = ((ns, e), w1)"
      by (metis surj_pair)
    from GetNamespace_sent [OF g] obtain gs where gs: "trace w1 = trace w @ gs" "creations gs = []"
      by blast
    show ?thesis
    proof (cases e)
      case (Some err)
      with Cons.prems \<open>repository_name r = Some name\<close> g gs show ?thesis by auto
    next
      case None
      with Cons.prems \<open>repository_name r = Some name\<close> g
      have "\<exists>ks'. PrepareForPush_lookups L a rs ks' w1 = (res, w')"
        by (auto split: if_splits)
      then obtain ks' where "PrepareForPush_lookups L a rs ks' w1 = (res, w')" ..
      from Cons.IH [OF this] gs show ?thesis by auto
    qed
  qed
qed

lemma lookups_append:
  "PrepareForPush_lookups L a (pre @ rest) ks w =
     (case PrepareForPush_lookups L a pre ks w of
        (Returns (Inr ks'), w1) \<Rightarrow> PrepareForPush_lookups L a rest ks' w1
      | other \<Rightarrow> other)"
  by (induction pre arbitrary: ks w) (auto split: option.splits prod.splits sum.splits outcome.splits)

lemma creates_append:
  "PrepareForPush_creates L a url (pre @ rest) w =
     (case PrepareForPush_creates L a url pre w of
        (None, w1) \<Rightarrow> PrepareForPush_creates L a url rest w1
      | other \<Rightarrow> other)"
  by (induction pre arbitrary: w) (auto split: option.splits prod.splits sum.splits simp: Let_def)

lemma creates_sent:
  "PrepareForPush_creates L a url ks w = (e, w') \<Longrightarrow>
     \<exists>ps n. trace w' = trace w @ ps \<and> n \<le> length ks \<and>
       list_all2 (\<lambda>r c. create_request L url c = Inr r) ps (take n ks)"
proof (induction ks arbitrary: w)
  case Nil
  then show ?case by auto
next
  case (Cons c ks)
  show ?case
  proof (cases "create_request L url c")
    case (Inl err)
    with Cons.prems have "w' = w" by simp
    then show ?thesis by (intro exI [of _ "[]"] exI [of _ 0]) simp
  next
    case (Inr r)
    obtain rr w1 where d: "Do a r w = (rr, w1)" by (cases "Do a r w")
    from Do_trace [OF d] have t: "trace w1 = trace w @ [r]" by simp
    show ?thesis
    proof (cases "\<exists>resp. rr = Inr resp \<and> is_2xx (StatusCode resp)")
      case True
      with Cons.prems Inr d have "PrepareForPush_creates L a url ks w1 = (e, w')"
        by (auto simp: Let_def is_2xx_def)
      from Cons.IH [OF this] obtain ps n where
        "trace w' = trace w1 @ ps" "n \<le> length ks"
        "list_all2 (\<lambda>r c. create_request L url c = Inr r) ps (take n ks)" by blast
      with t Inr show ?thesis
        by (intro exI [of _ "r # ps"] exI [of _ "Suc n"]) simp
    next
      case False
      with Cons.prems Inr d have "w' = w1"
        by (cases rr) (auto simp: Let_def is_2xx_def split: if_splits)
      with t Inr show ?thesis
        by (intro exI [of _ "[r]"] exI [of _ "Suc 0"]) simp
    qed
  qed
qed

lemma lookups_keys:
  "PrepareForPush_lookups L a rs ks w = (Returns (Inr ks'), w') \<Longrightarrow> distinct ks \<Longrightarrow>
     distinct ks' \<and> set ks' \<subseteq> set ks \<union> set (candidates rs)"
proof (induction rs arbitrary: ks w)
  case Nil
  then show ?case by simp
next
  case (Cons r rs)
  from Cons.prems obtain name where n: "repository_name r = Some name"
    by (cases "repository_name r") auto
  obtain ns e w1 where g: "GetNamespace L a (candidate name) w = ((ns, e), w1)"
    by (metis surj_pair)
  have c: "set (candidates (r # rs)) = insert (candidate name) (set (candidates rs))"
    using n by (simp add: candidates_def map_filter_simps)
  from Cons.prems n g have "e = None" by (cases e) auto
  with Cons.prems n g consider
    "PrepareForPush_lookups L a rs ks w1 = (Returns (Inr ks'), w')"
    | "PrepareForPush_lookups L a rs (List.insert (candidate name) ks) w1 = (Returns (Inr ks'), w')"
    by (auto split: if_splits)
  then show ?case
  proof cases
    case 1
    from Cons.IH [OF 1 Cons.prems(2)] c show ?thesis by auto
  next
    case 2
    from Cons.IH [OF 2] Cons.prems(2) c show ?thesis by auto
  qed
qed

section \<open>The health check never fails\<close>

text \<open>
  C9. \<^verbatim>\<open>HealthCheck\<close> returns the healthy status and a nil error for every adapter and
  every state of the world, sends no request and leaves the remote service as it is.
\<close>

theorem HealthCheck_always_healthy:
  "fst (HealthCheck a w) = (Healthy, None) \<and> sent w (snd (HealthCheck a w)) = []
     \<and> remote (snd (HealthCheck a w)) = remote w"
  by (simp add: HealthCheck_def sent_def)

section \<open>Evaluating the sample environments\<close>

lemmas sample_defs = sample_lib_def reply_adapter_def refusing_adapter_def store_adapter_def
  http_NewRequest_def Do_def fresh_def
  content_type_json_def Header_Add_def error_response_def ok_response_def Errorf_status_def
  itoa_def digit_def is_2xx_def

lemma digits_404: "digits 404 = ''404''" by code_simp
lemma digits_500: "digits 500 = ''500''" by code_simp

section \<open>Errors of the listing\<close>

lemma loop_err: "ListNamespaces_loop L reg recs acc = (nss, e) \<Longrightarrow> e = None"
  by (induction recs arbitrary: acc) (auto split: sum.splits if_splits simp: Let_def)

text \<open>
  C10. Whenever \<^verbatim>\<open>ListNamespaces\<close> returns an error, the list it returns with it is empty:
  every return with an error hands back the slice as it was declared, and the loop over
  the records, which alone appends to the slice, returns no error.
\<close>

theorem ListNamespaces_error_no_results:
  "fst (ListNamespaces L a query w) = Returns (namespaces, Some err) \<Longrightarrow> namespaces = []"
  by (auto simp: ListNamespaces_def Let_def dest: loop_err
      split: sum.splits prod.splits if_splits option.splits)

theorem ListNamespaces_error_no_results_witness:
  "fst (ListNamespaces sample_lib (reply_adapter (Inr (error_response 500 ''boom'')))
          (Some \<lparr>query_Name = ''a''\<rparr>) (fresh ()))
     = Returns ([], Some (Errorf ''[500][boom]'')) \<and> ([] :: Namespace list) = []"
proof -
  have h: "fst (ListNamespaces sample_lib (reply_adapter (Inr (error_response 500 ''boom'')))
          (Some \<lparr>query_Name = ''a''\<rparr>) (fresh ()))
     = Returns ([], Some (Errorf ''[500][boom]''))"
    by (simp add: ListNamespaces_def sample_defs digits_500)
  from ListNamespaces_error_no_results [OF h] h show ?thesis by simp
qed

section \<open>A status outside the 2xx range\<close>

text \<open>
  C5. When the remote service answers the listing request, or a request that creates a
  namespace, with a status outside the range from 200 to 299, the operation returns the
  error with the message \<^verbatim>\<open>[status][body]\<close>, the body as it was read, and ends there:
  the request that failed is the last one of the log. For \<^verbatim>\<open>PrepareForPush\<close> the
  namespaces to create are visited in the order \<open>pre @ c # post\<close>, the requests for
  \<open>pre\<close> succeed and the request for \<open>c\<close> fails; no request is sent for \<open>post\<close>.
\<close>

theorem status_outside_2xx_is_error:
  "(http_NewRequest L ''GET'' (registry_URL a @ ''/dockyard/v2/visible/namespaces'') None = Inr r0 \<and>
    client a (content_type_json r0) (remote w) = (Inr resp, s') \<and>
    \<not> is_2xx (StatusCode resp) \<longrightarrow>
      ListNamespaces L a query w =
        (Returns ([], Some (Errorf (''['' @ itoa (StatusCode resp) @ '']['' @ Body resp @ '']''))),
         \<lparr>remote = s', trace = trace w @ [content_type_json r0]\<rparr>))
   \<and>
   (PrepareForPush_lookups L a resources [] v = (Returns (Inr namespaces), v0) \<and>
    sort_key (MapRank L) namespaces = pre @ c # post \<and>
    PrepareForPush_creates L a (registry_URL a @ ''/dockyard/v2/namespaces'') pre v0 = (None, v1) \<and>
    create_request L (registry_URL a @ ''/dockyard/v2/namespaces'') c = Inr r \<and>
    client a r (remote v1) = (Inr resp', t') \<and>
    \<not> is_2xx (StatusCode resp') \<longrightarrow>
      PrepareForPush L a resources v =
        (Returns (Some (Errorf (''['' @ itoa (StatusCode resp') @ '']['' @ Body resp' @ '']''))),
         \<lparr>remote = t', trace = trace v1 @ [r]\<rparr>))"
proof (intro conjI impI)
  assume "http_NewRequest L ''GET'' (registry_URL a @ ''/dockyard/v2/visible/namespaces'') None = Inr r0 \<and>
    client a (content_type_json r0) (remote w) = (Inr resp, s') \<and> \<not> is_2xx (StatusCode resp)"
  then show "ListNamespaces L a query w =
        (Returns ([], Some (Errorf (''['' @ itoa (StatusCode resp) @ '']['' @ Body resp @ '']''))),
         \<lparr>remote = s', trace = trace w @ [content_type_json r0]\<rparr>)"
    by (auto simp: ListNamespaces_def Do_def is_2xx_def Errorf_status_def)
next
  let ?url = "registry_URL a @ ''/dockyard/v2/namespaces''"
  assume h: "PrepareForPush_lookups L a resources [] v = (Returns (Inr namespaces), v0) \<and>
    sort_key (MapRank L) namespaces = pre @ c # post \<and>
    PrepareForPush_creates L a ?url pre v0 = (None, v1) \<and>
    create_request L ?url c = Inr r \<and>
    client a r (remote v1) = (Inr resp', t') \<and>
    \<not> is_2xx (StatusCode resp')"
  then have "PrepareForPush_creates L a ?url (c # post) v1 =
      (Some (Errorf_status (StatusCode resp') (Body resp')), \<lparr>remote = t', trace = trace v1 @ [r]\<rparr>)"
    by (auto simp: Do_def is_2xx_def)
  with h have "PrepareForPush_creates L a ?url (pre @ c # post) v0 =
      (Some (Errorf_status (StatusCode resp') (Body resp')), \<lparr>remote = t', trace = trace v1 @ [r]\<rparr>)"
    by (simp add: creates_append)
  with h show "PrepareForPush L a resources v =
        (Returns (Some (Errorf (''['' @ itoa (StatusCode resp') @ '']['' @ Body resp' @ '']''))),
         \<lparr>remote = t', trace = trace v1 @ [r]\<rparr>)"
    by (simp add: PrepareForPush_def Errorf_status_def)
qed

lemma candidate_b: "candidate ''b/repo3'' = ''b''" by (simp add: candidate_def)

theorem status_outside_2xx_is_error_witness:
  \<open>ListNamespaces sample_lib (reply_adapter (Inr (error_response 500 ''boom'')))
      (Some \<lparr>query_Name = ''a''\<rparr>) (fresh ()) =
     (Returns ([], Some (Errorf ''[500][boom]'')),
      \<lparr>remote = (),
       trace = [\<lparr>Method = ''GET'', Url = ''http://swr/dockyard/v2/visible/namespaces'',
                 Header = [(''content-type'', ''application/json; charset=utf-8'')],
                 ReqBody = None\<rparr>]\<rparr>)
   \<and>
   PrepareForPush sample_lib refusing_adapter [resource_of ''b/repo3''] (fresh ()) =
     (Returns (Some (Errorf ''[500][boom]'')),
      \<lparr>remote = (),
       trace = [\<lparr>Method = ''GET'', Url = ''http://swr/dockyard/v2/namespaces/b'',
                 Header = [(''content-type'', ''application/json; charset=utf-8'')],
                 ReqBody = None\<rparr>,
                \<lparr>Method = ''POST'', Url = ''http://swr/dockyard/v2/namespaces'',
                 Header = [(''content-type'', ''application/json; charset=utf-8'')],
                 ReqBody = Some ''{"namespace":"b"}''\<rparr>]\<rparr>)\<close>
proof -
  let ?a = "reply_adapter (Inr (error_response 500 ''boom''))"
  let ?r0 = "\<lparr>Method = ''GET'', Url = ''http://swr/dockyard/v2/visible/namespaces'',
               Header = [], ReqBody = None\<rparr>"
  have 1: "http_NewRequest sample_lib ''GET'' (registry_URL ?a @ ''/dockyard/v2/visible/namespaces'') None = Inr ?r0 \<and>
      client ?a (content_type_json ?r0) (remote (fresh ())) = (Inr (error_response 500 ''boom''), ()) \<and>
      \<not> is_2xx (StatusCode (error_response 500 ''boom''))"
    by (simp add: sample_defs)
  let ?g = "\<lparr>Method = ''GET'', Url = ''http://swr/dockyard/v2/namespaces/b'',
                 Header = [(''content-type'', ''application/json; charset=utf-8'')],
                 ReqBody = None\<rparr>"
  let ?p = \<open>\<lparr>Method = ''POST'', Url = ''http://swr/dockyard/v2/namespaces'',
                 Header = [(''content-type'', ''application/json; charset=utf-8'')],
                 ReqBody = Some ''{"namespace":"b"}''\<rparr>\<close>
  let ?v0 = "\<lparr>remote = (), trace = [?g]\<rparr>"
  have 2: "PrepareForPush_lookups sample_lib refusing_adapter [resource_of ''b/repo3''] [] (fresh ())
       = (Returns (Inr [''b'']), ?v0) \<and>
    sort_key (MapRank sample_lib) [''b''] = [] @ ''b'' # [] \<and>
    PrepareForPush_creates sample_lib refusing_adapter
       (registry_URL refusing_adapter @ ''/dockyard/v2/namespaces'') [] ?v0 = (None, ?v0) \<and>
    create_request sample_lib (registry_URL refusing_adapter @ ''/dockyard/v2/namespaces'') ''b'' = Inr ?p \<and>
    client refusing_adapter ?p (remote ?v0) = (Inr (error_response 500 ''boom''), ()) \<and>
    \<not> is_2xx (StatusCode (error_response 500 ''boom''))"
    by (simp add: sample_defs candidate_b resource_of_def repository_name_def GetNamespace_def
        sample_Unmarshal_ns_def zero_namespace_def create_request_def sample_Marshal_def)
  from status_outside_2xx_is_error [where L = sample_lib and a = ?a and ?r0.0 = ?r0
      and w = "fresh ()" and resp = "error_response 500 ''boom''" and s' = "()"
      and query = "Some \<lparr>query_Name = ''a''\<rparr>", THEN conjunct1, rule_format, OF 1]
    status_outside_2xx_is_error [where L = sample_lib and a = refusing_adapter
      and resources = "[resource_of ''b/repo3'']" and v = "fresh ()" and namespaces = "[''b'']"
      and ?v0.0 = ?v0 and pre = "[]" and c = "''b''" and post = "[]" and ?v1.0 = ?v0 and r = ?p
      and resp' = "error_response 500 ''boom''" and t' = "()", THEN conjunct2, rule_format, OF 2]
  show ?thesis
    by (simp add: sample_defs digits_500)
qed

section \<open>A malformed pattern\<close>

lemma loop_stop:
  assumes "\<forall>x \<in> set pre. \<exists>b. MatchString L reg (otc_Name x) = Inr b"
    and "MatchString L reg (otc_Name rec) = Inl e"
  shows "ListNamespaces_loop L reg (pre @ rec # post) acc =
     (acc @ map to_Namespace (filter (\<lambda>x. MatchString L reg (otc_Name x) = Inr True) pre), None)"
  using assms by (induction pre arbitrary: acc) (auto simp: Let_def to_Namespace_def)

lemma ListNamespaces_decoded:
  assumes "http_NewRequest L ''GET'' (registry_URL a @ ''/dockyard/v2/visible/namespaces'') None = Inr r0"
    and "client a (content_type_json r0) (remote w) = (Inr resp, s')"
    and "is_2xx (StatusCode resp)" and "ReadErr resp = None"
    and "Unmarshal_list L (Body resp) = Inr recs"
  shows "ListNamespaces L a (Some q) w =
     (Returns (ListNamespaces_loop L (''.*'' @ strip_spaces (query_Name q) @ ''.*'') recs []),
      \<lparr>remote = s', trace = trace w @ [content_type_json r0]\<rparr>)"
  using assms by (simp add: ListNamespaces_def Do_def is_2xx_def)

text \<open>
  C7. When the match of the pattern built from the query fails with an error (the pattern
  is malformed), \<^verbatim>\<open>ListNamespaces\<close> returns the namespaces gathered so far, those of the
  records before the failing one that matched, and a nil error. The library's error
  depends on the pattern alone, so that with it the failing record is the first one and
  the list returned is empty, as in the witness.
\<close>

theorem malformed_pattern_swallowed:
  assumes "http_NewRequest L ''GET'' (registry_URL a @ ''/dockyard/v2/visible/namespaces'') None = Inr r0"
    and "client a (content_type_json r0) (remote w) = (Inr resp, s')"
    and "is_2xx (StatusCode resp)" and "ReadErr resp = None"
    and "Unmarshal_list L (Body resp) = Inr (pre @ rec # post)"
    and "\<forall>x \<in> set pre. \<exists>b. MatchString L (''.*'' @ strip_spaces q @ ''.*'') (otc_Name x) = Inr b"
    and "MatchString L (''.*'' @ strip_spaces q @ ''.*'') (otc_Name rec) = Inl err"
  shows "fst (ListNamespaces L a (Some \<lparr>query_Name = q\<rparr>) w) =
     Returns (map to_Namespace
                (filter (\<lambda>x. MatchString L (''.*'' @ strip_spaces q @ ''.*'') (otc_Name x) = Inr True) pre),
              None)"
  using ListNamespaces_decoded [OF assms(1-5), of "\<lparr>query_Name = q\<rparr>"] loop_stop [OF assms(6,7), of post "[]"]
  by simp

lemma open_paren_malformed:
  "regexp_MatchString ''.*(.*'' ''abc'' = Inl (SyntaxError ErrMissingParen)"
  by code_simp

lemma sample_list_abc:
  \<open>sample_Unmarshal_list ''{"namespaces":[{"name":"abc"}]}'' = Inr [named ''abc'']\<close>
  by (simp add: sample_Unmarshal_list_def sample_lists_def)

theorem malformed_pattern_swallowed_witness:
  \<open>fst (ListNamespaces sample_lib
          (reply_adapter (Inr (ok_response ''{"namespaces":[{"name":"abc"}]}'')))
          (Some \<lparr>query_Name = ''(''\<rparr>) (fresh ())) = Returns ([], None)
    \<and> regexp_MatchString ''.*(.*'' ''abc'' = Inl (SyntaxError ErrMissingParen)\<close>
proof -
  let ?b = \<open>''{"namespaces":[{"name":"abc"}]}''\<close>
  let ?a = "reply_adapter (Inr (ok_response ?b))"
  let ?r0 = "\<lparr>Method = ''GET'', Url = ''http://swr/dockyard/v2/visible/namespaces'',
               Header = [], ReqBody = None\<rparr>"
  have 1: "http_NewRequest sample_lib ''GET'' (registry_URL ?a @ ''/dockyard/v2/visible/namespaces'') None = Inr ?r0"
    by (simp add: sample_defs)
  have 2: "client ?a (content_type_json ?r0) (remote (fresh ())) = (Inr (ok_response ?b), ())"
    by (simp add: sample_defs)
  have 3: "is_2xx (StatusCode (ok_response ?b))" "ReadErr (ok_response ?b) = None"
    by (simp_all add: sample_defs)
  have 4: "Unmarshal_list sample_lib (Body (ok_response ?b)) = Inr ([] @ named ''abc'' # [])"
    by (simp add: sample_lib_def ok_response_def sample_list_abc)
  have 5: "\<forall>x \<in> set []. \<exists>b. MatchString sample_lib (''.*'' @ strip_spaces ''('' @ ''.*'') (otc_Name x) = Inr b"
    by simp
  have 6: "MatchString sample_lib (''.*'' @ strip_spaces ''('' @ ''.*'') (otc_Name (named ''abc''))
      = Inl (SyntaxError ErrMissingParen)"
    by (simp add: sample_lib_def strip_spaces_def named_def open_paren_malformed)
  from malformed_pattern_swallowed [OF 1 2 3 4 5 6] open_paren_malformed
  show ?thesis by simp
qed

section \<open>The namespaces handed to the host\<close>

lemma dom_metadata:
  "dom (metadata rec) =
     {''id'', ''creator_name'', ''domain_public'', ''auth'', ''domain_name'', ''user_count'',
      ''image_count''}"
  by (auto simp: metadata_def)

lemma loop_members:
  "ns \<in> set (fst (ListNamespaces_loop L reg recs acc)) \<Longrightarrow>
     ns \<in> set acc \<or> ns \<in> to_Namespace ` set recs"
proof (induction recs arbitrary: acc)
  case Nil
  then show ?case by simp
next
  case (Cons r recs)
  show ?case
  proof (cases "MatchString L reg (Name (to_Namespace r))")
    case (Inl e)
    with Cons.prems show ?thesis by (simp add: Let_def)
  next
    case (Inr b)
    with Cons.prems Cons.IH [of "acc @ [to_Namespace r]"] Cons.IH [of acc]
    show ?thesis by (cases b) (auto simp: Let_def)
  qed
qed

text \<open>
  C8. Every namespace that \<^verbatim>\<open>ListNamespaces\<close> returns, and the namespace that
  \<^verbatim>\<open>GetNamespace\<close> returns with a nil error, is the translation of a record decoded from
  the body of the response: its name is the name of the record as it is, and the keys of
  its metadata are exactly id, creator\_name, domain\_public, auth, domain\_name,
  user\_count and image\_count. (With an error \<^verbatim>\<open>GetNamespace\<close> hands back the value it
  starts from, of the empty name and no metadata, which stands for no record.)
\<close>

theorem returned_namespace_is_remote_record:
  "(fst (ListNamespaces L a query w) = Returns (namespaces, err) \<and> ns \<in> set namespaces \<longrightarrow>
      (\<exists>r0 resp s' recs rec.
          client a r0 (remote w) = (Inr resp, s') \<and> Unmarshal_list L (Body resp) = Inr recs \<and>
          rec \<in> set recs \<and> Name ns = otc_Name rec \<and> Metadata ns = metadata rec) \<and>
      dom (Metadata ns) =
        {''id'', ''creator_name'', ''domain_public'', ''auth'', ''domain_name'', ''user_count'',
         ''image_count''})
   \<and>
   (fst (GetNamespace L a namespaceStr w) = (ns', None) \<longrightarrow>
      (\<exists>r0 resp s' rec.
          client a r0 (remote w) = (Inr resp, s') \<and> Unmarshal_ns L (Body resp) = Inr rec \<and>
          Name ns' = otc_Name rec \<and> Metadata ns' = metadata rec) \<and>
      dom (Metadata ns') =
        {''id'', ''creator_name'', ''domain_public'', ''auth'', ''domain_name'', ''user_count'',
         ''image_count''})"
proof (intro conjI impI)
  assume h: "fst (ListNamespaces L a query w) = Returns (namespaces, err) \<and> ns \<in> set namespaces"
  then obtain r0 resp w1 recs reg where
    d: "Do a r0 w = (Inr resp, w1)" and u: "Unmarshal_list L (Body resp) = Inr recs"
    and l: "ListNamespaces_loop L reg recs [] = (namespaces, err)"
    by (auto simp: ListNamespaces_def Let_def
        split: sum.splits prod.splits if_splits option.splits)
  from l h loop_members [of ns L reg recs "[]"] obtain rec where
    r: "rec \<in> set recs" "ns = to_Namespace rec" by auto
  from Do_trace [OF d] have "client a r0 (remote w) = (Inr resp, remote w1)"
    by (metis prod.collapse)
  with u r show "\<exists>r0 resp s' recs rec.
          client a r0 (remote w) = (Inr resp, s') \<and> Unmarshal_list L (Body resp) = Inr recs \<and>
          rec \<in> set recs \<and> Name ns = otc_Name rec \<and> Metadata ns = metadata rec"
    by (auto simp: to_Namespace_def)
  from r show "dom (Metadata ns) =
        {''id'', ''creator_name'', ''domain_public'', ''auth'', ''domain_name'', ''user_count'',
         ''image_count''}"
    by (simp add: to_Namespace_def dom_metadata)
next
  assume h: "fst (GetNamespace L a namespaceStr w) = (ns', None)"
  then obtain r0 resp w1 rec where
    d: "Do a r0 w = (Inr resp, w1)" and u: "Unmarshal_ns L (Body resp) = Inr rec"
    and n: "ns' = \<lparr>Name = otc_Name rec, Metadata = metadata rec\<rparr>"
    by (auto simp: GetNamespace_def Let_def
        split: sum.splits prod.splits if_splits option.splits)
  from Do_trace [OF d] have "client a r0 (remote w) = (Inr resp, remote w1)"
    by (metis prod.collapse)
  with u n show "\<exists>r0 resp s' rec.
          client a r0 (remote w) = (Inr resp, s') \<and> Unmarshal_ns L (Body resp) = Inr rec \<and>
          Name ns' = otc_Name rec \<and> Metadata ns' = metadata rec"
    by auto
  from n show "dom (Metadata ns') =
        {''id'', ''creator_name'', ''domain_public'', ''auth'', ''domain_name'', ''user_count'',
         ''image_count''}"
    by (simp add: dom_metadata)
qed

lemma list_abc_dot:
  \<open>fst (ListNamespaces sample_lib
          (reply_adapter (Inr (ok_response ''{"namespaces":[{"name":"abc"}]}'')))
          (Some \<lparr>query_Name = ''a.c''\<rparr>) (fresh ())) = Returns ([to_Namespace (named ''abc'')], None)\<close>
proof -
  have m: "regexp_MatchString ''.*a.c.*'' ''abc'' = Inr True" by code_simp
  show ?thesis
    by (simp add: ListNamespaces_def sample_defs sample_list_abc strip_spaces_def
        to_Namespace_def named_def m)
qed

lemma get_a_store:
  \<open>fst (GetNamespace sample_lib store_adapter ''a'' (fresh [''a''])) =
     (\<lparr>Name = ''a'', Metadata = metadata (named ''a'')\<rparr>, None)\<close>
  by (simp add: GetNamespace_def sample_defs store_client_def unwrap_def sample_Unmarshal_ns_def
      named_def suffix_to_prefix)

theorem returned_namespace_is_remote_record_witness:
  \<open>fst (ListNamespaces sample_lib
          (reply_adapter (Inr (ok_response ''{"namespaces":[{"name":"abc"}]}'')))
          (Some \<lparr>query_Name = ''a.c''\<rparr>) (fresh ())) = Returns ([to_Namespace (named ''abc'')], None)
   \<and> Name (to_Namespace (named ''abc'')) = ''abc''
   \<and> dom (Metadata (to_Namespace (named ''abc''))) =
        {''id'', ''creator_name'', ''domain_public'', ''auth'', ''domain_name'', ''user_count'',
         ''image_count''}
   \<and> fst (GetNamespace sample_lib store_adapter ''a'' (fresh [''a''])) =
        (\<lparr>Name = ''a'', Metadata = metadata (named ''a'')\<rparr>, None)
   \<and> dom (Metadata \<lparr>Name = ''a'', Metadata = metadata (named ''a'')\<rparr>) =
        {''id'', ''creator_name'', ''domain_public'', ''auth'', ''domain_name'', ''user_count'',
         ''image_count''}\<close>
proof -
  let ?ns = "to_Namespace (named ''abc'')"
  have 1: \<open>fst (ListNamespaces sample_lib
          (reply_adapter (Inr (ok_response ''{"namespaces":[{"name":"abc"}]}'')))
          (Some \<lparr>query_Name = ''a.c''\<rparr>) (fresh ())) = Returns ([?ns], None) \<and> ?ns \<in> set [?ns]\<close>
    using list_abc_dot by simp
  from returned_namespace_is_remote_record [THEN conjunct1, rule_format, OF 1]
    returned_namespace_is_remote_record [THEN conjunct2, rule_format, OF get_a_store]
    list_abc_dot get_a_store
  show ?thesis by (simp add: to_Namespace_def named_def)
qed

section \<open>The lookup of a namespace\<close>

text \<open>
  Against C6 as it is worded: the sample service holds no namespace, it answers the lookup
  of the name \<^verbatim>\<open>x\<close> with status 200 and the empty object, as the mock of the adapter's
  test does, and \<^verbatim>\<open>GetNamespace\<close> returns a nil error with a namespace of the empty name.
\<close>

theorem GetNamespace_missing_name_succeeds:
  \<open>''x'' \<notin> set (remote (fresh ([] :: string list)))
   \<and> snd (fst (GetNamespace sample_lib store_adapter ''x'' (fresh []))) = None
   \<and> Name (fst (fst (GetNamespace sample_lib store_adapter ''x'' (fresh [])))) = []
   \<and> sent (fresh []) (snd (GetNamespace sample_lib store_adapter ''x'' (fresh []))) =
       [\<lparr>Method = ''GET'', Url = ''http://swr/dockyard/v2/namespaces/x'',
         Header = [(''content-type'', ''application/json; charset=utf-8'')],
         ReqBody = None\<rparr>]\<close>
  by (simp add: GetNamespace_def sample_defs store_client_def unwrap_def sample_Unmarshal_ns_def
      zero_namespace_def sent_def)

text \<open>
  C6, amended. \<^verbatim>\<open>GetNamespace\<close> decides by the status of the response, not by the
  presence of the name. When the status is outside the range from 200 to 299 it returns
  the error with the message \<^verbatim>\<open>[status][body]\<close>, with the namespace of the empty name and
  no metadata. When the status is within the range and the body decodes, it returns a nil
  error and the namespace of the decoded record, whatever the name of the record is.
\<close>

theorem GetNamespace_fails_by_status:
  "(http_NewRequest L ''GET'' (registry_URL a @ ''/dockyard/v2/namespaces/'' @ namespaceStr) None = Inr r0 \<and>
    client a (content_type_json r0) (remote w) = (Inr resp, s') \<and>
    \<not> is_2xx (StatusCode resp) \<longrightarrow>
      GetNamespace L a namespaceStr w =
        ((\<lparr>Name = [], Metadata = Map.empty\<rparr>,
          Some (Errorf (''['' @ itoa (StatusCode resp) @ '']['' @ Body resp @ '']''))),
         \<lparr>remote = s', trace = trace w @ [content_type_json r0]\<rparr>))
   \<and>
   (http_NewRequest L ''GET'' (registry_URL a @ ''/dockyard/v2/namespaces/'' @ namespaceStr) None = Inr r0 \<and>
    client a (content_type_json r0) (remote w) = (Inr resp, s') \<and>
    is_2xx (StatusCode resp) \<and> ReadErr resp = None \<and> Unmarshal_ns L (Body resp) = Inr rec \<longrightarrow>
      GetNamespace L a namespaceStr w =
        ((\<lparr>Name = otc_Name rec, Metadata = metadata rec\<rparr>, None),
         \<lparr>remote = s', trace = trace w @ [content_type_json r0]\<rparr>))"
  by (auto simp: GetNamespace_def Do_def is_2xx_def Errorf_status_def)

theorem GetNamespace_fails_by_status_witness:
  \<open>GetNamespace sample_lib (reply_adapter (Inr (error_response 404 ''not found''))) ''x'' (fresh ()) =
     ((\<lparr>Name = [], Metadata = Map.empty\<rparr>, Some (Errorf ''[404][not found]'')),
      \<lparr>remote = (),
       trace = [\<lparr>Method = ''GET'', Url = ''http://swr/dockyard/v2/namespaces/x'',
                 Header = [(''content-type'', ''application/json; charset=utf-8'')],
                 ReqBody = None\<rparr>]\<rparr>)
   \<and>
   GetNamespace sample_lib store_adapter ''a'' (fresh [''a'']) =
     ((\<lparr>Name = ''a'', Metadata = metadata (named ''a'')\<rparr>, None),
      \<lparr>remote = [''a''],
       trace = [\<lparr>Method = ''GET'', Url = ''http://swr/dockyard/v2/namespaces/a'',
                 Header = [(''content-type'', ''application/json; charset=utf-8'')],
                 ReqBody = None\<rparr>]\<rparr>)\<close>
proof -
  let ?a = "reply_adapter (Inr (error_response 404 ''not found''))"
  let ?rx = "\<lparr>Method = ''GET'', Url = ''http://swr/dockyard/v2/namespaces/x'',
               Header = [], ReqBody = None\<rparr>"
  let ?ra = "\<lparr>Method = ''GET'', Url = ''http://swr/dockyard/v2/namespaces/a'',
               Header = [], ReqBody = None\<rparr>"
  have 1: "http_NewRequest sample_lib ''GET'' (registry_URL ?a @ ''/dockyard/v2/namespaces/'' @ ''x'') None = Inr ?rx \<and>
    client ?a (content_type_json ?rx) (remote (fresh ())) = (Inr (error_response 404 ''not found''), ()) \<and>
    \<not> is_2xx (StatusCode (error_response 404 ''not found''))"
    by (simp add: sample_defs)
  have 2: \<open>http_NewRequest sample_lib ''GET'' (registry_URL store_adapter @ ''/dockyard/v2/namespaces/'' @ ''a'') None = Inr ?ra \<and>
    client store_adapter (content_type_json ?ra) (remote (fresh [''a''])) = (Inr (ok_response ''{"name":"a"}''), [''a'']) \<and>
    is_2xx (StatusCode (ok_response ''{"name":"a"}'')) \<and> ReadErr (ok_response ''{"name":"a"}'') = None \<and>
    Unmarshal_ns sample_lib (Body (ok_response ''{"name":"a"}'')) = Inr (named ''a'')\<close>
    by (simp add: sample_defs store_client_def unwrap_def sample_Unmarshal_ns_def suffix_to_prefix)
  from GetNamespace_fails_by_status [THEN conjunct1, rule_format, OF 1]
    GetNamespace_fails_by_status [THEN conjunct2, rule_format, OF 2]
  show ?thesis by (simp add: sample_defs digits_404 named_def)
qed

section \<open>A lookup that fails during the preparation of a push\<close>

lemma candidate_a: "candidate ''a/repo1'' = ''a''" by (simp add: candidate_def)

text \<open>
  Against C2 as it is worded: the service answers the lookup of the candidate \<^verbatim>\<open>a\<close> with
  status 404; \<^verbatim>\<open>PrepareForPush\<close> returns the error of the lookup, and the lookup is the one
  request it has sent: no namespace is created.
\<close>

theorem PrepareForPush_not_found_aborts:
  \<open>fst (PrepareForPush sample_lib (reply_adapter (Inr (error_response 404 ''not found'')))
          [resource_of ''a/repo1''] (fresh ())) = Returns (Some (Errorf ''[404][not found]''))
   \<and> sent (fresh ()) (snd (PrepareForPush sample_lib (reply_adapter (Inr (error_response 404 ''not found'')))
          [resource_of ''a/repo1''] (fresh ()))) =
       [\<lparr>Method = ''GET'', Url = ''http://swr/dockyard/v2/namespaces/a'',
         Header = [(''content-type'', ''application/json; charset=utf-8'')],
         ReqBody = None\<rparr>]\<close>
  by (simp add: PrepareForPush_def resource_of_def repository_name_def candidate_a GetNamespace_def
      sample_defs digits_404 sent_def)

text \<open>
  C2, amended. When the lookups for the resources \<open>pre\<close> succeed and the service answers
  the lookup for the next resource with a status outside the range from 200 to 299,
  \<^verbatim>\<open>PrepareForPush\<close> returns the error of that lookup, with the message
  \<^verbatim>\<open>[status][body]\<close>, and ends there: the lookup that failed is the last request of the
  log, no lookup is sent for the resources \<open>post\<close>, and no request that creates a
  namespace is sent at all.
\<close>

theorem PrepareForPush_lookup_failure_aborts:
  assumes "PrepareForPush_lookups L a pre [] w = (Returns (Inr namespaces), w1)"
    and "repository_name resource = Some name"
    and "http_NewRequest L ''GET'' (registry_URL a @ ''/dockyard/v2/namespaces/'' @ candidate name) None = Inr r0"
    and "client a (content_type_json r0) (remote w1) = (Inr resp, s')"
    and "\<not> is_2xx (StatusCode resp)"
  shows "PrepareForPush L a (pre @ resource # post) w =
           (Returns (Some (Errorf (''['' @ itoa (StatusCode resp) @ '']['' @ Body resp @ '']''))),
            \<lparr>remote = s', trace = trace w1 @ [content_type_json r0]\<rparr>)
         \<and> creations (sent w (snd (PrepareForPush L a (pre @ resource # post) w))) = []"
proof -
  let ?e = "Errorf (''['' @ itoa (StatusCode resp) @ '']['' @ Body resp @ '']'')"
  let ?w2 = "\<lparr>remote = s', trace = trace w1 @ [content_type_json r0]\<rparr>"
  from assms(3-5) have "GetNamespace L a (candidate name) w1 =
      ((\<lparr>Name = [], Metadata = Map.empty\<rparr>, Some ?e), ?w2)"
    by (auto simp: GetNamespace_def Do_def is_2xx_def Errorf_status_def)
  with assms(2) have "PrepareForPush_lookups L a (resource # post) namespaces w1 = (Returns (Inl ?e), ?w2)"
    by simp
  with assms(1) have l: "PrepareForPush_lookups L a (pre @ resource # post) [] w = (Returns (Inl ?e), ?w2)"
    by (simp add: lookups_append)
  then have p: "PrepareForPush L a (pre @ resource # post) w = (Returns (Some ?e), ?w2)"
    by (simp add: PrepareForPush_def)
  from lookups_sent [OF l] obtain gs where "trace ?w2 = trace w @ gs" "creations gs = []" by blast
  then have "creations (sent w ?w2) = []" by (simp add: sent_def)
  with p show ?thesis by simp
qed

lemma candidate_c: "candidate ''c/repo4'' = ''c''" by (simp add: candidate_def)

theorem PrepareForPush_lookup_failure_aborts_witness:
  \<open>PrepareForPush sample_lib strict_adapter
      [resource_of ''a/repo1'', resource_of ''b/repo3'', resource_of ''c/repo4''] (fresh [''a'']) =
     (Returns (Some (Errorf ''[404][not found]'')),
      \<lparr>remote = [''a''],
       trace = [\<lparr>Method = ''GET'', Url = ''http://swr/dockyard/v2/namespaces/a'',
                 Header = [(''content-type'', ''application/json; charset=utf-8'')],
                 ReqBody = None\<rparr>,
                \<lparr>Method = ''GET'', Url = ''http://swr/dockyard/v2/namespaces/b'',
                 Header = [(''content-type'', ''application/json; charset=utf-8'')],
                 ReqBody = None\<rparr>]\<rparr>)
   \<and> creations (sent (fresh [''a'']) (snd (PrepareForPush sample_lib strict_adapter
        [resource_of ''a/repo1'', resource_of ''b/repo3'', resource_of ''c/repo4''] (fresh [''a''])))) = []\<close>
proof -
  let ?ga = "\<lparr>Method = ''GET'', Url = ''http://swr/dockyard/v2/namespaces/a'',
                 Header = [(''content-type'', ''application/json; charset=utf-8'')],
                 ReqBody = None\<rparr>"
  let ?r0 = "\<lparr>Method = ''GET'', Url = ''http://swr/dockyard/v2/namespaces/b'',
               Header = [], ReqBody = None\<rparr>"
  let ?w1 = "\<lparr>remote = [''a''], trace = [?ga]\<rparr>"
  have 1: "PrepareForPush_lookups sample_lib strict_adapter [resource_of ''a/repo1''] [] (fresh [''a''])
      = (Returns (Inr []), ?w1)"
    by (simp add: resource_of_def repository_name_def candidate_a GetNamespace_def sample_defs
        strict_adapter_def store_client_def unwrap_def suffix_to_prefix sample_Unmarshal_ns_def
        named_def)
  have 2: "repository_name (resource_of ''b/repo3'') = Some ''b/repo3''"
    by (simp add: resource_of_def repository_name_def)
  have 3: "http_NewRequest sample_lib ''GET''
      (registry_URL strict_adapter @ ''/dockyard/v2/namespaces/'' @ candidate ''b/repo3'') None = Inr ?r0"
    by (simp add: sample_defs strict_adapter_def candidate_b)
  have 4: "client strict_adapter (content_type_json ?r0) (remote ?w1) =
      (Inr (error_response 404 ''not found''), [''a''])"
    by (simp add: sample_defs strict_adapter_def store_client_def unwrap_def)
  have 5: "\<not> is_2xx (StatusCode (error_response 404 ''not found''))"
    by (simp add: sample_defs)
  from PrepareForPush_lookup_failure_aborts [OF 1 2 3 4 5, of "[resource_of ''c/repo4'']"]
  have "PrepareForPush sample_lib strict_adapter
      [resource_of ''a/repo1'', resource_of ''b/repo3'', resource_of ''c/repo4''] (fresh [''a'']) =
     (Returns (Some (Errorf ''[404][not found]'')),
      \<lparr>remote = [''a''], trace = [?ga, content_type_json ?r0]\<rparr>)"
    by (simp add: error_response_def itoa_def digits_404 fresh_def)
  then show ?thesis
    by (simp add: content_type_json_def Header_Add_def sent_def fresh_def creations_def)
qed

section \<open>The namespaces that a push creates\<close>

lemma strings_Split_first:
  "\<exists>ps. strings_Split s sep = takeWhile (\<lambda>c. c \<noteq> sep) s # ps"
  by (induction s) auto

lemma candidate_takeWhile: "candidate name = takeWhile (\<lambda>c. c \<noteq> CHR ''/'') name"
  using strings_Split_first [of name "CHR ''/''"] by (auto simp: candidate_def)

lemma creations_all_POST:
  "list_all2 (\<lambda>r c. create_request L url c = Inr r) ps cs \<Longrightarrow> creations ps = ps"
  by (induction ps cs rule: list_all2_induct) (auto simp: creations_def dest: create_request_POST)

text \<open>
  Against C4 as it is worded: for the repository name \<^verbatim>\<open>/a/b\<close> the first non-empty
  segment is \<^verbatim>\<open>a\<close>, and the candidate of the adapter is the empty string; the request
  that creates the namespace carries the empty name.
\<close>

theorem creation_request_for_empty_candidate:
  \<open>creations (sent (fresh ()) (snd (PrepareForPush sample_lib
        (reply_adapter (Inr (ok_response ''{"name":"x"}''))) [resource_of ''/a/b''] (fresh ())))) =
     [\<lparr>Method = ''POST'', Url = ''http://swr/dockyard/v2/namespaces'',
       Header = [(''content-type'', ''application/json; charset=utf-8'')],
       ReqBody = Some ''{"namespace":""}''\<rparr>]
   \<and> candidate ''/a/b'' = []
   \<and> first_nonempty_segment ''/a/b'' = ''a''\<close>
proof -
  have c: "candidate ''/a/b'' = []" by (simp add: candidate_def)
  have f: "first_nonempty_segment ''/a/b'' = ''a''" by (simp add: first_nonempty_segment_def)
  show ?thesis
    by (simp add: c f PrepareForPush_def resource_of_def repository_name_def GetNamespace_def
      sample_defs sample_Unmarshal_ns_def unwrap_def suffix_to_prefix named_def
      create_request_def sample_Marshal_def sent_def creations_def)
qed

text \<open>
  C4, amended. The candidate namespace of a repository name is its first segment, the text
  before the first slash, which is empty when the name starts with a slash. For every list
  of resources the requests that create a namespace, in the order in which
  \<^verbatim>\<open>PrepareForPush\<close> has sent them, are the requests for a list of candidates of the
  resources without repetition: at most one request for each candidate, however many
  repositories share it, and whatever the order in which the map is visited.
\<close>

theorem one_creation_per_candidate:
  "candidate name = takeWhile (\<lambda>c. c \<noteq> CHR ''/'') name \<and>
   (\<exists>cs. distinct cs \<and> set cs \<subseteq> set (candidates resources) \<and>
      list_all2 (\<lambda>r c. create_request L (registry_URL a @ ''/dockyard/v2/namespaces'') c = Inr r)
        (creations (sent w (snd (PrepareForPush L a resources w)))) cs)"
proof
  show "candidate name = takeWhile (\<lambda>c. c \<noteq> CHR ''/'') name" by (rule candidate_takeWhile)
next
  let ?url = "registry_URL a @ ''/dockyard/v2/namespaces''"
  let ?P = "\<lambda>r c. create_request L ?url c = Inr r"
  obtain res w1 where l: "PrepareForPush_lookups L a resources [] w = (res, w1)"
    by (cases "PrepareForPush_lookups L a resources [] w")
  from lookups_sent [OF l] obtain gs where gs: "trace w1 = trace w @ gs" "creations gs = []"
    by blast
  show "\<exists>cs. distinct cs \<and> set cs \<subseteq> set (candidates resources) \<and>
      list_all2 ?P (creations (sent w (snd (PrepareForPush L a resources w)))) cs"
  proof (cases "\<exists>ks. res = Returns (Inr ks)")
    case False
    with l have "snd (PrepareForPush L a resources w) = w1"
      by (cases res) (auto simp: PrepareForPush_def split: sum.splits)
    with gs have "creations (sent w (snd (PrepareForPush L a resources w))) = []"
      by (simp add: sent_def)
    then show ?thesis by (intro exI [of _ "[]"]) simp
  next
    case True
    then obtain ks where ks: "res = Returns (Inr ks)" ..
    from lookups_keys [OF l [unfolded ks]] have d: "distinct ks" "set ks \<subseteq> set (candidates resources)"
      by auto
    obtain e w2 where c: "PrepareForPush_creates L a ?url (sort_key (MapRank L) ks) w1 = (e, w2)"
      by (cases "PrepareForPush_creates L a ?url (sort_key (MapRank L) ks) w1")
    from creates_sent [OF c] obtain ps n where
      ps: "trace w2 = trace w1 @ ps" "list_all2 ?P ps (take n (sort_key (MapRank L) ks))"
      by blast
    from l ks c have "snd (PrepareForPush L a resources w) = w2"
      by (simp add: PrepareForPush_def)
    with gs ps have "creations (sent w (snd (PrepareForPush L a resources w))) = ps"
      by (simp add: sent_def creations_all_POST)
    moreover have "distinct (take n (sort_key (MapRank L) ks))"
      using d by simp
    moreover have "set (take n (sort_key (MapRank L) ks)) \<subseteq> set (candidates resources)"
      using d set_take_subset [of n "sort_key (MapRank L) ks"] by auto
    ultimately show ?thesis using ps by blast
  qed
qed

text \<open>
  The example of the specification: three repositories in the two namespaces \<^verbatim>\<open>a\<close> and
  \<^verbatim>\<open>b\<close>, against a service that holds neither, are two requests of creation.
\<close>

lemma candidate_a2: "candidate ''a/repo2'' = ''a''" by (simp add: candidate_def)

lemma three_resources_two_creations:
  \<open>creations (sent (fresh []) (snd (PrepareForPush sample_lib store_adapter
        [resource_of ''a/repo1'', resource_of ''a/repo2'', resource_of ''b/repo3''] (fresh [])))) =
     [\<lparr>Method = ''POST'', Url = ''http://swr/dockyard/v2/namespaces'',
       Header = [(''content-type'', ''application/json; charset=utf-8'')],
       ReqBody = Some ''{"namespace":"b"}''\<rparr>,
      \<lparr>Method = ''POST'', Url = ''http://swr/dockyard/v2/namespaces'',
       Header = [(''content-type'', ''application/json; charset=utf-8'')],
       ReqBody = Some ''{"namespace":"a"}''\<rparr>]\<close>
  by (simp add: PrepareForPush_def resource_of_def repository_name_def GetNamespace_def
      candidate_a candidate_a2 candidate_b
      sample_defs sample_Unmarshal_ns_def unwrap_def suffix_to_prefix named_def zero_namespace_def
      store_client_def create_request_def sample_Marshal_def sent_def creations_def Let_def)

section \<open>Preparing the same push twice\<close>

lemma digits_409: "digits 409 = ''409''" by code_simp

text \<open>
  Against C3 as it is worded. The remote service keeps its namespaces and answers every
  lookup with status 200 and the empty object. The first call creates the namespace
  \<^verbatim>\<open>a\<close> and returns nil; the second call, from the world the first call has left, does
  not learn from its lookup that the namespace exists, asks for its creation again and
  returns the error of the refusal.
\<close>

theorem PrepareForPush_second_call_fails:
  \<open>fst (PrepareForPush sample_lib mute_adapter [resource_of ''a/repo1''] (fresh [])) = Returns None
   \<and> remote (snd (PrepareForPush sample_lib mute_adapter [resource_of ''a/repo1''] (fresh []))) =
       [''a'']
   \<and> fst (PrepareForPush sample_lib mute_adapter [resource_of ''a/repo1'']
        (snd (PrepareForPush sample_lib mute_adapter [resource_of ''a/repo1''] (fresh [])))) =
       Returns (Some (Errorf ''[409][namespace exists]''))\<close>
  by (simp add: PrepareForPush_def resource_of_def repository_name_def GetNamespace_def
      candidate_a sample_defs mute_adapter_def sample_Unmarshal_ns_def zero_namespace_def
      store_client_def unwrap_def suffix_to_prefix create_request_def sample_Marshal_def
      digits_409 Let_def)

text \<open>The result of a lookup does not depend on the log.\<close>

lemma GetNamespace_fst:
  "fst (GetNamespace L a c w) = fst (GetNamespace L a c \<lparr>remote = remote w, trace = []\<rparr>)"
  by (auto simp: GetNamespace_def Do_def Let_def split: sum.splits prod.splits option.splits)

lemma confirms_iff:
  "confirms L a (remote w) c \<longleftrightarrow> (\<exists>ns. fst (GetNamespace L a c w) = (ns, None) \<and> Name ns = c)"
  unfolding confirms_def GetNamespace_fst [of L a c w]
  by (cases "fst (GetNamespace L a c \<lparr>remote = remote w, trace = []\<rparr>)") (auto split: option.splits)

text \<open>
  A lookup that cannot build its request leaves the world as it is; every other lookup
  sends its request, and nothing else.
\<close>

lemma GetNamespace_world:
  assumes "GetNamespace L a c w = (res, w')"
  shows "(w' = w \<and> snd res \<noteq> None) \<or>
         (\<exists>r. lookup_request L a c = Inr r \<and> trace w' = trace w @ [r] \<and>
              remote w' = snd (client a r (remote w)))"
proof (cases "http_NewRequest L ''GET'' (registry_URL a @ ''/dockyard/v2/namespaces/'' @ c) None")
  case (Inl e)
  with assms show ?thesis by (auto simp: GetNamespace_def)
next
  case (Inr r0)
  obtain rr w1 where d: "Do a (content_type_json r0) w = (rr, w1)"
    by (cases "Do a (content_type_json r0) w")
  from assms Inr d have "w' = w1"
    by (auto simp: GetNamespace_def Let_def split: sum.splits option.splits if_splits)
  moreover from Inr have "lookup_request L a c = Inr (content_type_json r0)"
    by (simp add: lookup_request_def)
  ultimately show ?thesis using Do_trace [OF d] by blast
qed

lemma sends_lookup: "c \<in> set cs \<Longrightarrow> lookup_request L a c = Inr r \<Longrightarrow> sends L a cs r"
  by (auto simp: sends_def list_ex_iff)

lemma sends_create:
  "c \<in> set cs \<Longrightarrow> create_request L (registry_URL a @ ''/dockyard/v2/namespaces'') c = Inr r \<Longrightarrow>
   sends L a cs r"
  by (auto simp: sends_def list_ex_iff)

lemma stable_GetNamespace:
  assumes "stable L a cs" "c' \<in> set cs" "c \<in> set cs" "confirms L a (remote w) c"
    "GetNamespace L a c' w = (res, w')"
  shows "confirms L a (remote w') c"
proof -
  from GetNamespace_world [OF assms(5)] show ?thesis
  proof
    assume "w' = w \<and> snd res \<noteq> None"
    with assms(4) show ?thesis by simp
  next
    assume "\<exists>r. lookup_request L a c' = Inr r \<and> trace w' = trace w @ [r] \<and>
              remote w' = snd (client a r (remote w))"
    then obtain r where r: "lookup_request L a c' = Inr r"
      "remote w' = snd (client a r (remote w))" by blast
    from sends_lookup [OF assms(2) r(1)] assms(1,3,4) r(2) show ?thesis
      by (simp add: stable_def)
  qed
qed

lemma stable_Do:
  assumes "stable L a cs" "k \<in> set cs"
    "create_request L (registry_URL a @ ''/dockyard/v2/namespaces'') k = Inr r"
    "c \<in> set cs" "confirms L a (remote w) c" "Do a r w = (res, w')"
  shows "confirms L a (remote w') c"
  using Do_trace [OF assms(6)] sends_create [OF assms(2,3)] assms(1,4,5)
  by (simp add: stable_def)

lemma candidates_Cons:
  "repository_name r = Some name \<Longrightarrow> candidates (r # rs) = candidate name # candidates rs"
  by (simp add: candidates_def map_filter_simps)

lemma stable_lookups:
  assumes "stable L a cs" "c \<in> set cs"
  shows "confirms L a (remote w) c \<Longrightarrow> set (candidates rs) \<subseteq> set cs \<Longrightarrow>
    PrepareForPush_lookups L a rs ks w = (res, w') \<Longrightarrow> confirms L a (remote w') c"
proof (induction rs arbitrary: ks w)
  case Nil
  then show ?case by simp
next
  case (Cons r rs)
  show ?case
  proof (cases "repository_name r")
    case None
    with Cons.prems show ?thesis by simp
  next
    case (Some name)
    with Cons.prems(2) have in_cs: "candidate name \<in> set cs" "set (candidates rs) \<subseteq> set cs"
      by (simp_all add: candidates_Cons)
    obtain ns e w1 where g: "GetNamespace L a (candidate name) w = ((ns, e), w1)"
      by (metis surj_pair)
    from stable_GetNamespace [OF assms(1) in_cs(1) assms(2) Cons.prems(1) g]
    have c1: "confirms L a (remote w1) c" .
    show ?thesis
    proof (cases e)
      case (Some err)
      with Cons.prems \<open>repository_name r = Some name\<close> g c1 show ?thesis by auto
    next
      case None
      with Cons.prems \<open>repository_name r = Some name\<close> g
      have "\<exists>ks'. PrepareForPush_lookups L a rs ks' w1 = (res, w')"
        by (auto split: if_splits)
      then obtain ks' where "PrepareForPush_lookups L a rs ks' w1 = (res, w')" ..
      from Cons.IH [OF c1 in_cs(2) this] show ?thesis .
    qed
  qed
qed

text \<open>After the second loop has returned nil, every namespace it visited exists.\<close>

lemma creates_confirm:
  assumes "stable L a cs" and "creation_takes_effect L a cs"
  shows "PrepareForPush_creates L a (registry_URL a @ ''/dockyard/v2/namespaces'') ks w = (None, w') \<Longrightarrow>
    set ks \<subseteq> set cs \<Longrightarrow>
    (\<forall>c \<in> set cs. confirms L a (remote w) c \<longrightarrow> confirms L a (remote w') c) \<and>
    (\<forall>c \<in> set ks. confirms L a (remote w') c)"
proof (induction ks arbitrary: w)
  case Nil
  then show ?case by simp
next
  case (Cons k ks)
  let ?url = "registry_URL a @ ''/dockyard/v2/namespaces''"
  from Cons.prems have kc: "k \<in> set cs" "set ks \<subseteq> set cs" by auto
  from Cons.prems obtain r where r: "create_request L ?url k = Inr r"
    by (cases "create_request L ?url k") auto
  obtain rr w1 where d: "Do a r w = (rr, w1)" by (cases "Do a r w")
  from Cons.prems r d obtain resp where resp: "rr = Inr resp" "is_2xx (StatusCode resp)"
    and rest: "PrepareForPush_creates L a ?url ks w1 = (None, w')"
    by (cases rr) (auto simp: Let_def is_2xx_def split: if_splits)
  from Do_trace [OF d] resp have "client a r (remote w) = (Inr resp, remote w1)"
    by (metis prod.collapse)
  with assms(2) kc(1) r resp(2) have k1: "confirms L a (remote w1) k"
    unfolding creation_takes_effect_def by blast
  have s1: "\<forall>c \<in> set cs. confirms L a (remote w) c \<longrightarrow> confirms L a (remote w1) c"
    using stable_Do [OF assms(1) kc(1) r _ _ d] by blast
  from Cons.IH [OF rest kc(2)] k1 s1 kc show ?case by auto
qed

text \<open>
  After the first loop every candidate is a key of the map or exists, and no resource
  had a nil pointer.
\<close>

lemma lookups_confirm:
  assumes "stable L a cs"
  shows "PrepareForPush_lookups L a rs ks w = (Returns (Inr ks'), w') \<Longrightarrow>
    set (candidates rs) \<subseteq> set cs \<Longrightarrow>
    set ks \<subseteq> set ks' \<and> (\<forall>c \<in> set (candidates rs). c \<in> set ks' \<or> confirms L a (remote w') c)
    \<and> (\<forall>r \<in> set rs. repository_name r \<noteq> None)"
proof (induction rs arbitrary: ks w)
  case Nil
  then show ?case by (simp add: candidates_def map_filter_simps)
next
  case (Cons r rs)
  from Cons.prems obtain name where n: "repository_name r = Some name"
    by (cases "repository_name r") auto
  obtain ns e w1 where g: "GetNamespace L a (candidate name) w = ((ns, e), w1)"
    by (metis surj_pair)
  have c: "set (candidates (r # rs)) = insert (candidate name) (set (candidates rs))"
    using n by (simp add: candidates_Cons)
  with Cons.prems(2) have in_cs: "candidate name \<in> set cs" "set (candidates rs) \<subseteq> set cs"
    by auto
  from Cons.prems n g have e: "e = None" by (cases e) auto
  show ?case
  proof (cases "Name ns = candidate name")
    case True
    with Cons.prems n g e have rest: "PrepareForPush_lookups L a rs ks w1 = (Returns (Inr ks'), w')"
      by simp
    from g e True have "confirms L a (remote w) (candidate name)"
      by (simp add: confirms_iff)
    from stable_GetNamespace [OF assms in_cs(1) in_cs(1) this g]
    have "confirms L a (remote w1) (candidate name)" .
    from stable_lookups [OF assms in_cs(1) this in_cs(2) rest]
    have "confirms L a (remote w') (candidate name)" .
    with Cons.IH [OF rest in_cs(2)] c n show ?thesis by auto
  next
    case False
    with Cons.prems n g e
    have rest: "PrepareForPush_lookups L a rs (List.insert (candidate name) ks) w1 = (Returns (Inr ks'), w')"
      by simp
    from Cons.IH [OF rest in_cs(2)] c n show ?thesis by auto
  qed
qed

text \<open>
  When every candidate exists, the first loop leaves the map as it is and sends the
  lookups of the candidates, one for each resource, and nothing else.
\<close>

lemma lookups_all_confirmed:
  assumes "stable L a cs"
  shows "\<forall>r \<in> set rs. repository_name r \<noteq> None \<Longrightarrow> set (candidates rs) \<subseteq> set cs \<Longrightarrow>
    \<forall>c \<in> set cs. confirms L a (remote w) c \<Longrightarrow>
    \<exists>w' gs. PrepareForPush_lookups L a rs ks w = (Returns (Inr ks), w') \<and>
      trace w' = trace w @ gs \<and> map Inr gs = map (lookup_request L a) (candidates rs)"
proof (induction rs arbitrary: w)
  case Nil
  then show ?case by (simp add: candidates_def map_filter_simps)
next
  case (Cons r rs)
  from Cons.prems obtain name where n: "repository_name r = Some name" by auto
  from Cons.prems(2) n have in_cs: "candidate name \<in> set cs" "set (candidates rs) \<subseteq> set cs"
    by (simp_all add: candidates_Cons)
  obtain ns e w1 where g: "GetNamespace L a (candidate name) w = ((ns, e), w1)"
    by (metis surj_pair)
  from Cons.prems(3) in_cs have "confirms L a (remote w) (candidate name)" by simp
  with g have e: "e = None" "Name ns = candidate name" by (auto simp: confirms_iff)
  from GetNamespace_world [OF g] e obtain q where
    q: "lookup_request L a (candidate name) = Inr q" "trace w1 = trace w @ [q]" by auto
  have "\<forall>c \<in> set cs. confirms L a (remote w1) c"
    using Cons.prems(3) stable_GetNamespace [OF assms in_cs(1) _ _ g] by auto
  with Cons.IH [of w1] Cons.prems(1) in_cs obtain w' gs where
    "PrepareForPush_lookups L a rs ks w1 = (Returns (Inr ks), w')"
    "trace w' = trace w1 @ gs" "map Inr gs = map (lookup_request L a) (candidates rs)" by auto
  with n g e q show ?case
    by (intro exI [of _ w'] exI [of _ "q # gs"]) (simp add: candidates_Cons)
qed

text \<open>
  C3, amended. \<^verbatim>\<open>PrepareForPush\<close> is idempotent against a remote service that keeps the
  namespaces of the resources as its lookups report them: none of the lookups and
  creations that the adapter sends for these namespaces makes the lookup of one of them
  stop returning it, and a creation answered with a status of success makes the lookup
  of that namespace return it. Against such a service, when a first call returns nil, a
  second call with the same resources, from the world that the first call has left,
  returns nil as well; the requests it sends are the lookups of the candidates, one for
  each resource in their order, and no request that creates a namespace.
\<close>

theorem PrepareForPush_idempotent:
  assumes "stable L a (candidates resources)"
    and "creation_takes_effect L a (candidates resources)"
    and "PrepareForPush L a resources w = (Returns None, w')"
  shows "fst (PrepareForPush L a resources w') = Returns None \<and>
         creations (sent w' (snd (PrepareForPush L a resources w'))) = [] \<and>
         map Inr (sent w' (snd (PrepareForPush L a resources w'))) =
           map (lookup_request L a) (candidates resources)"
proof -
  let ?url = "registry_URL a @ ''/dockyard/v2/namespaces''"
  let ?cs = "candidates resources"
  note st = assms(1)
  from assms(3) obtain ks w1 where
    l: "PrepareForPush_lookups L a resources [] w = (Returns (Inr ks), w1)" and
    c: "PrepareForPush_creates L a ?url (sort_key (MapRank L) ks) w1 = (None, w')"
    by (auto simp: PrepareForPush_def split: prod.splits outcome.splits sum.splits)
  from lookups_keys [OF l] have ks: "set ks \<subseteq> set ?cs" by simp
  from lookups_confirm [OF st l] have
    1: "\<forall>c \<in> set ?cs. c \<in> set ks \<or> confirms L a (remote w1) c" and
    2: "\<forall>r \<in> set resources. repository_name r \<noteq> None" by auto
  have "set (sort_key (MapRank L) ks) \<subseteq> set ?cs" using ks by simp
  from creates_confirm [OF st assms(2) c this]
  have "(\<forall>c \<in> set ?cs. confirms L a (remote w1) c \<longrightarrow> confirms L a (remote w') c) \<and>
    (\<forall>c \<in> set (sort_key (MapRank L) ks). confirms L a (remote w') c)" .
  with 1 have "\<forall>c \<in> set ?cs. confirms L a (remote w') c" by auto
  from lookups_all_confirmed [OF st 2 _ this, of "[]"] obtain w2 gs where
    l2: "PrepareForPush_lookups L a resources [] w' = (Returns (Inr []), w2)" and
    gs: "trace w2 = trace w' @ gs" "map Inr gs = map (lookup_request L a) ?cs" by auto
  from l2 have p: "PrepareForPush L a resources w' = (Returns None, w2)"
    by (simp add: PrepareForPush_def)
  from lookups_sent [OF l2] gs have "creations gs = []" by auto
  with gs p show ?thesis by (simp add: sent_def)
qed

text \<open>
  The sample service with the DELETE endpoint has both properties: the adapter sends
  lookups and creations only.
\<close>

lemma lookup_request_GET: "lookup_request L a c = Inr r \<Longrightarrow> Method r = ''GET''"
proof -
  assume h: "lookup_request L a c = Inr r"
  then obtain r0 where
    "http_NewRequest L ''GET'' (registry_URL a @ ''/dockyard/v2/namespaces/'' @ c) None = Inr r0"
    "r = content_type_json r0"
    by (auto simp: lookup_request_def split: sum.splits)
  with http_NewRequest_Method [OF this(1)] show ?thesis by simp
qed

lemma sends_Method: "sends L a cs r \<Longrightarrow> Method r = ''GET'' \<or> Method r = ''POST''"
  by (auto simp: sends_def list_ex_iff dest: lookup_request_GET create_request_POST)

lemma deleting_fields:
  "registry_URL deleting_adapter = ''http://swr''"
  "Marshal sample_lib = sample_Marshal" "url_Parse sample_lib = (\<lambda>u. None)"
  "Unmarshal_ns sample_lib = sample_Unmarshal_ns"
  "Method r \<noteq> ''DELETE'' \<Longrightarrow> client deleting_adapter r s = store_client r s"
  by (simp_all add: deleting_adapter_def sample_lib_def)

lemma confirms_deleting: "confirms sample_lib deleting_adapter s c \<longleftrightarrow> c \<in> set s \<or> c = []"
  by (auto simp: confirms_def GetNamespace_def deleting_fields http_NewRequest_def Do_def
      content_type_json_def Header_Add_def ok_response_def store_client_def unwrap_def
      sample_Unmarshal_ns_def named_def zero_namespace_def suffix_to_prefix)

lemma store_grows: "set s \<subseteq> set (snd (store_client r s))"
  by (auto simp: store_client_def split: option.splits)

lemma deleting_stable: "stable sample_lib deleting_adapter cs"
proof -
  have "set s \<subseteq> set (snd (client deleting_adapter r s))" if "sends sample_lib deleting_adapter cs r"
    for r s
    using sends_Method [OF that] store_grows [of s r] by (auto simp: deleting_fields)
  then show ?thesis by (auto simp: stable_def confirms_deleting)
qed

lemma deleting_effective: "creation_takes_effect sample_lib deleting_adapter cs"
  by (auto simp: creation_takes_effect_def confirms_deleting create_request_def deleting_fields
      http_NewRequest_def content_type_json_def Header_Add_def sample_Marshal_def store_client_def
      is_2xx_def error_response_def unwrap_def suffix_to_prefix split: if_splits)

text \<open>The service with the DELETE endpoint does not keep a namespace under every request.\<close>

lemma deleting_forgets:
  "confirms sample_lib deleting_adapter [''a''] ''a'' \<and>
   \<not> confirms sample_lib deleting_adapter
        (snd (client deleting_adapter
               \<lparr>Method = ''DELETE'', Url = ''http://swr/dockyard/v2/namespaces/a'', Header = [],
                ReqBody = None\<rparr> [''a''])) ''a''"
proof -
  have "snd (client deleting_adapter
               \<lparr>Method = ''DELETE'', Url = ''http://swr/dockyard/v2/namespaces/a'', Header = [],
                ReqBody = None\<rparr> [''a'']) = []"
    by (simp add: deleting_adapter_def unwrap_def)
  then show ?thesis by (simp add: confirms_deleting)
qed

theorem PrepareForPush_idempotent_witness:
  \<open>fst (PrepareForPush sample_lib deleting_adapter
        [resource_of ''a/repo1'', resource_of ''a/repo2'', resource_of ''b/repo3''] (fresh [])) =
       Returns None
   \<and> remote (snd (PrepareForPush sample_lib deleting_adapter
        [resource_of ''a/repo1'', resource_of ''a/repo2'', resource_of ''b/repo3''] (fresh []))) =
       [''b'', ''a'']
   \<and> fst (PrepareForPush sample_lib deleting_adapter
        [resource_of ''a/repo1'', resource_of ''a/repo2'', resource_of ''b/repo3'']
        (snd (PrepareForPush sample_lib deleting_adapter
          [resource_of ''a/repo1'', resource_of ''a/repo2'', resource_of ''b/repo3''] (fresh [])))) =
       Returns None
   \<and> sent
        (snd (PrepareForPush sample_lib deleting_adapter
          [resource_of ''a/repo1'', resource_of ''a/repo2'', resource_of ''b/repo3''] (fresh [])))
        (snd (PrepareForPush sample_lib deleting_adapter
          [resource_of ''a/repo1'', resource_of ''a/repo2'', resource_of ''b/repo3'']
          (snd (PrepareForPush sample_lib deleting_adapter
            [resource_of ''a/repo1'', resource_of ''a/repo2'', resource_of ''b/repo3''] (fresh []))))) =
       [\<lparr>Method = ''GET'', Url = ''http://swr/dockyard/v2/namespaces/a'',
         Header = [(''content-type'', ''application/json; charset=utf-8'')], ReqBody = None\<rparr>,
        \<lparr>Method = ''GET'', Url = ''http://swr/dockyard/v2/namespaces/a'',
         Header = [(''content-type'', ''application/json; charset=utf-8'')], ReqBody = None\<rparr>,
        \<lparr>Method = ''GET'', Url = ''http://swr/dockyard/v2/namespaces/b'',
         Header = [(''content-type'', ''application/json; charset=utf-8'')], ReqBody = None\<rparr>]\<close>
proof -
  let ?rs = "[resource_of ''a/repo1'', resource_of ''a/repo2'', resource_of ''b/repo3'']"
  let ?p = "PrepareForPush sample_lib deleting_adapter ?rs (fresh [])"
  have 1: "fst ?p = Returns None \<and> remote (snd ?p) = [''b'', ''a'']"
    by (simp add: PrepareForPush_def resource_of_def repository_name_def GetNamespace_def
      candidate_a candidate_a2 candidate_b deleting_adapter_def
      sample_defs sample_Unmarshal_ns_def unwrap_def suffix_to_prefix named_def zero_namespace_def
      store_client_def create_request_def sample_Marshal_def Let_def)
  then have 2: "?p = (Returns None, snd ?p)" by (metis prod.collapse)
  have 3: "candidates ?rs = [''a'', ''a'', ''b'']"
    by (simp add: candidates_def map_filter_simps resource_of_def repository_name_def
        candidate_a candidate_a2 candidate_b)
  let ?ga = "\<lparr>Method = ''GET'', Url = ''http://swr/dockyard/v2/namespaces/a'',
         Header = [(''content-type'', ''application/json; charset=utf-8'')], ReqBody = None\<rparr>"
  let ?gb = "\<lparr>Method = ''GET'', Url = ''http://swr/dockyard/v2/namespaces/b'',
         Header = [(''content-type'', ''application/json; charset=utf-8'')], ReqBody = None\<rparr>"
  have 4: "map (lookup_request sample_lib deleting_adapter) [''a'', ''a'', ''b''] = map Inr [?ga, ?ga, ?gb]"
    by (simp add: lookup_request_def deleting_fields http_NewRequest_def content_type_json_def
        Header_Add_def)
  from PrepareForPush_idempotent [OF deleting_stable deleting_effective 2, unfolded 3 4]
  have 5: "fst (PrepareForPush sample_lib deleting_adapter ?rs (snd ?p)) = Returns None"
    and 6: "map Inr (sent (snd ?p) (snd (PrepareForPush sample_lib deleting_adapter ?rs (snd ?p)))) =
      (map Inr [?ga, ?ga, ?gb] :: (error + request) list)"
    by blast+
  from 6 have "sent (snd ?p) (snd (PrepareForPush sample_lib deleting_adapter ?rs (snd ?p))) =
      [?ga, ?ga, ?gb]"
    by (rule map_injective) simp
  with 1 5 show ?thesis by simp
qed

section \<open>The filter of the listing\<close>

subsection \<open>The matcher decides the language of the expression\<close>

lemma Nil_in_conc: "[] \<in> conc A B \<longleftrightarrow> [] \<in> A \<and> [] \<in> B"
  by (auto simp: conc_def)

lemma Cons_in_conc:
  "c # w \<in> conc A B \<longleftrightarrow>
     ([] \<in> A \<and> c # w \<in> B) \<or> (\<exists>u v. w = u @ v \<and> c # u \<in> A \<and> v \<in> B)"
  by (auto simp: conc_def Cons_eq_append_conv)

lemma star_Cons_split:
  "x \<in> star A \<Longrightarrow> x = c # w \<Longrightarrow> \<exists>u v. w = u @ v \<and> c # u \<in> A \<and> v \<in> star A"
proof (induction arbitrary: w rule: star.induct)
  case star_Nil
  then show ?case by simp
next
  case (star_app u v)
  show ?case
  proof (cases u)
    case Nil
    with star_app show ?thesis by simp
  next
    case (Cons d u')
    with star_app.prems have "d = c" "w = u' @ v" by simp_all
    with Cons star_app.hyps show ?thesis by blast
  qed
qed

lemma Cons_in_star:
  "c # w \<in> star A \<longleftrightarrow> (\<exists>u v. w = u @ v \<and> c # u \<in> A \<and> v \<in> star A)"
proof
  assume "c # w \<in> star A"
  then show "\<exists>u v. w = u @ v \<and> c # u \<in> A \<and> v \<in> star A" by (rule star_Cons_split) simp
next
  assume "\<exists>u v. w = u @ v \<and> c # u \<in> A \<and> v \<in> star A"
  then obtain u v where "w = u @ v" "c # u \<in> A" "v \<in> star A" by blast
  then show "c # w \<in> star A" using star_app [of "c # u" A v] by simp
qed

lemma nullable_iff: "nullable r \<longleftrightarrow> [] \<in> lang r"
  by (induction r) (auto simp: Nil_in_conc star_Nil)

lemma lang_deriv: "w \<in> lang (deriv c r) \<longleftrightarrow> c # w \<in> lang r"
proof (induction r arbitrary: w)
  case (Cat r s)
  then show ?case by (auto simp: Cons_in_conc nullable_iff) (auto simp: conc_def)
next
  case (Star r)
  then show ?case by (auto simp: Cons_in_star) (auto simp: conc_def)
next
  case (Plus r)
  then show ?case by (auto simp: Cons_in_conc Cons_in_star) (auto simp: conc_def)
qed auto

lemma match_prefix_iff: "match_prefix r s \<longleftrightarrow> (\<exists>u v. s = u @ v \<and> u \<in> lang r)"
proof (induction s arbitrary: r)
  case Nil
  then show ?case by (simp add: nullable_iff)
next
  case (Cons c cs)
  show ?case
    by (auto simp: Cons nullable_iff lang_deriv Cons_eq_append_conv)
qed

lemma search_iff: "search r s \<longleftrightarrow> (\<exists>p u v. s = p @ u @ v \<and> u \<in> lang r)"
proof (induction s)
  case Nil
  then show ?case by (simp add: nullable_iff)
next
  case (Cons c cs)
  have "(\<exists>p u v. c # cs = p @ u @ v \<and> u \<in> lang r) \<longleftrightarrow>
        (\<exists>u v. c # cs = u @ v \<and> u \<in> lang r) \<or> (\<exists>p u v. cs = p @ u @ v \<and> u \<in> lang r)"
    (is "?L \<longleftrightarrow> ?M \<or> ?R")
  proof
    assume ?L
    then obtain p u v where h: "c # cs = p @ u @ v" "u \<in> lang r" by blast
    show "?M \<or> ?R"
    proof (cases p)
      case Nil
      with h show ?thesis by auto
    next
      case (Cons d p')
      with h have "cs = p' @ u @ v" by simp
      with h show ?thesis by blast
    qed
  next
    assume "?M \<or> ?R"
    then show ?L
    proof
      assume ?M
      then obtain u v where "c # cs = [] @ u @ v" "u \<in> lang r" by auto
      then show ?L by blast
    next
      assume ?R
      then obtain p u v where "cs = p @ u @ v" "u \<in> lang r" by blast
      then have "c # cs = (c # p) @ u @ v" by simp
      with \<open>u \<in> lang r\<close> show ?L by blast
    qed
  qed
  with Cons show ?case by (simp add: match_prefix_iff)
qed

subsection \<open>The pattern of a query of literal characters\<close>

text \<open>The parser on a run of literal characters.\<close>

lemma parse_plain:
  "\<forall>c \<in> set lit. plain_char c \<Longrightarrow>
   parse (lit @ rest) t f stack =
     parse rest (if lit = [] then t else Normal) (fst f, rev (map Lit lit) @ snd f) stack"
proof (induction lit arbitrary: t f)
  case Nil
  then show ?case by simp
next
  case (Cons c lit)
  from Cons.prems have "plain_char c" by simp
  then have "parse ((c # lit) @ rest) t f stack = parse (lit @ rest) Normal (fst f, Lit c # snd f) stack"
    by (auto simp: plain_char_def meta_chars_def)
  with Cons.IH [of Normal "(fst f, Lit c # snd f)"] Cons.prems show ?case by simp
qed

lemma parse_literal_pattern:
  assumes "\<forall>c \<in> set lit. plain_char c"
  shows "parse (''.*'' @ lit @ ''.*'') Normal (None, []) [] =
     Inr (Cat (Star Dot) (foldr Cat (map Lit lit) (Cat (Star Dot) Eps)))"
proof -
  have "parse (''.*'' @ lit @ ''.*'') Normal (None, []) [] =
      parse (lit @ ''.*'') AfterRep (None, [Star Dot]) []"
    by (simp add: repeat_op_def)
  also have "\<dots> = parse ''.*'' (if lit = [] then AfterRep else Normal)
      (None, rev (map Lit lit) @ [Star Dot]) []"
    using parse_plain [OF assms, of "''.*''" AfterRep "(None, [Star Dot])" "[]"] by simp
  also have "\<dots> = Inr (Cat (Star Dot) (foldr Cat (map Lit lit) (Cat (Star Dot) Eps)))"
    by (simp add: repeat_op_def close_frame_def)
  finally show ?thesis .
qed

lemma lang_literals: "lang (foldr Cat (map Lit lit) r) = {lit @ w |w. w \<in> lang r}"
  by (induction lit) (auto simp: conc_def)

lemma literal_search:
  "search (Cat (Star Dot) (foldr Cat (map Lit lit) (Cat (Star Dot) Eps))) s \<longleftrightarrow> sublist lit s"
  (is "search ?r s \<longleftrightarrow> _")
proof
  assume "search ?r s"
  then obtain p u v where "s = p @ u @ v" "u \<in> lang ?r"
    unfolding search_iff by blast
  then obtain x y where "u = x @ lit @ y"
    by (auto simp: lang_literals conc_def)
  with \<open>s = p @ u @ v\<close> have "s = (p @ x) @ lit @ (y @ v)" by simp
  then show "sublist lit s" unfolding sublist_def by blast
next
  assume "sublist lit s"
  then obtain p v where s: "s = p @ lit @ v" unfolding sublist_def by blast
  have "[] @ lit @ [] @ [] \<in> lang ?r"
    unfolding lang.simps lang_literals conc_def using star_Nil [of "{[c] |c. c \<noteq> CHR 0x0A}"] by blast
  then have "lit \<in> lang ?r" by simp
  with s show "search ?r s"
    unfolding search_iff by blast
qed

lemma regexp_MatchString_literal:
  assumes "\<forall>c \<in> set lit. plain_char c" and "length lit \<le> 996"
  shows "regexp_MatchString (''.*'' @ lit @ ''.*'') s = Inr (sublist lit s)"
proof -
  have "\<not> length (''.*'' @ lit @ ''.*'') > 1000" using assms(2) by simp
  then show ?thesis
    unfolding regexp_MatchString_def parse_literal_pattern [OF assms(1)]
    by (simp only: if_False sum.case literal_search)
qed

lemma loop_filter:
  assumes "\<forall>r \<in> set recs. MatchString L reg (otc_Name r) = Inr (P (otc_Name r))"
  shows "ListNamespaces_loop L reg recs acc =
     (acc @ map to_Namespace (filter (\<lambda>r. P (otc_Name r)) recs), None)"
  using assms by (induction recs arbitrary: acc) (auto simp: Let_def to_Namespace_def)

text \<open>
  C1, amended. The query is a pattern, and only its space characters are removed. For a
  query that, without its spaces, consists of literal characters (ASCII characters other
  than the meta characters of the pattern syntax, at most 996 of them), \<^verbatim>\<open>ListNamespaces\<close>
  returns exactly the records, in the order of the remote list, whose name contains the
  query without its spaces as a substring; the empty query returns all of them.
\<close>

theorem ListNamespaces_plain_query:
  assumes "http_NewRequest L ''GET'' (registry_URL a @ ''/dockyard/v2/visible/namespaces'') None = Inr r0"
    and "client a (content_type_json r0) (remote w) = (Inr resp, s')"
    and "is_2xx (StatusCode resp)" and "ReadErr resp = None"
    and "Unmarshal_list L (Body resp) = Inr N"
    and "MatchString L = regexp_MatchString"
    and "\<forall>c \<in> set (strip_spaces q). plain_char c" and "length (strip_spaces q) \<le> 996"
  shows "fst (ListNamespaces L a (Some \<lparr>query_Name = q\<rparr>) w) =
           Returns (map to_Namespace (filter (\<lambda>r. sublist (strip_spaces q) (otc_Name r)) N), None)
         \<and> (q = [] \<longrightarrow>
              fst (ListNamespaces L a (Some \<lparr>query_Name = q\<rparr>) w) = Returns (map to_Namespace N, None))"
proof -
  let ?reg = "''.*'' @ strip_spaces q @ ''.*''"
  have "\<forall>r \<in> set N. MatchString L ?reg (otc_Name r) = Inr (sublist (strip_spaces q) (otc_Name r))"
    using regexp_MatchString_literal [OF assms(7,8)] assms(6) by simp
  from loop_filter [OF this, of "[]"] ListNamespaces_decoded [OF assms(1-5), of "\<lparr>query_Name = q\<rparr>"]
  have "fst (ListNamespaces L a (Some \<lparr>query_Name = q\<rparr>) w) =
           Returns (map to_Namespace (filter (\<lambda>r. sublist (strip_spaces q) (otc_Name r)) N), None)"
    by simp
  then show ?thesis by (auto simp: strip_spaces_def)
qed

lemma sample_list_teams:
  \<open>sample_Unmarshal_list
      ''{"namespaces":[{"name":"devteam"},{"name":"prod"},{"name":"dev-team-x"}]}'' =
     Inr [named ''devteam'', named ''prod'', named ''dev-team-x'']\<close>
  by (simp add: sample_Unmarshal_list_def sample_lists_def)

lemma sublist_teams:
  "sublist ''devteam'' ''devteam''" "\<not> sublist ''devteam'' ''prod''"
  "\<not> sublist ''devteam'' ''dev-team-x''"
  by code_simp+

theorem ListNamespaces_plain_query_witness:
  \<open>fst (ListNamespaces sample_lib
          (reply_adapter (Inr (ok_response
             ''{"namespaces":[{"name":"devteam"},{"name":"prod"},{"name":"dev-team-x"}]}'')))
          (Some \<lparr>query_Name = ''dev team''\<rparr>) (fresh ())) =
      Returns ([to_Namespace (named ''devteam'')], None)
   \<and> fst (ListNamespaces sample_lib
          (reply_adapter (Inr (ok_response
             ''{"namespaces":[{"name":"devteam"},{"name":"prod"},{"name":"dev-team-x"}]}'')))
          (Some \<lparr>query_Name = []\<rparr>) (fresh ())) =
      Returns ([to_Namespace (named ''devteam''), to_Namespace (named ''prod''),
                to_Namespace (named ''dev-team-x'')], None)\<close>
proof -
  let ?b = \<open>''{"namespaces":[{"name":"devteam"},{"name":"prod"},{"name":"dev-team-x"}]}''\<close>
  let ?a = "reply_adapter (Inr (ok_response ?b))"
  let ?r0 = "\<lparr>Method = ''GET'', Url = ''http://swr/dockyard/v2/visible/namespaces'',
               Header = [], ReqBody = None\<rparr>"
  let ?N = "[named ''devteam'', named ''prod'', named ''dev-team-x'']"
  have 1: "http_NewRequest sample_lib ''GET'' (registry_URL ?a @ ''/dockyard/v2/visible/namespaces'') None = Inr ?r0"
    by (simp add: sample_defs)
  have 2: "client ?a (content_type_json ?r0) (remote (fresh ())) = (Inr (ok_response ?b), ())"
    by (simp add: sample_defs)
  have 3: "is_2xx (StatusCode (ok_response ?b))" "ReadErr (ok_response ?b) = None"
    by (simp_all add: sample_defs)
  have 4: "Unmarshal_list sample_lib (Body (ok_response ?b)) = Inr ?N"
    by (simp add: sample_lib_def ok_response_def sample_list_teams)
  have 5: "MatchString sample_lib = regexp_MatchString"
    by (simp add: sample_lib_def)
  have 6: "\<forall>c \<in> set (strip_spaces ''dev team''). plain_char c" "length (strip_spaces ''dev team'') \<le> 996"
    by (simp_all add: strip_spaces_def plain_char_def meta_chars_def)
  have 7: "\<forall>c \<in> set (strip_spaces []). plain_char c" "length (strip_spaces []) \<le> 996"
    by (simp_all add: strip_spaces_def)
  from ListNamespaces_plain_query [OF 1 2 3 4 5 6, THEN conjunct1]
    ListNamespaces_plain_query [OF 1 2 3 4 5 7, THEN conjunct2]
  show ?thesis
    by (simp add: strip_spaces_def named_def sublist_teams)
qed

subsection \<open>The query is a pattern\<close>

lemma tab_pattern_abc:
  "regexp_MatchString [CHR ''.'', CHR ''*'', CHR ''b'', CHR 0x09, CHR ''c'', CHR ''.'', CHR ''*'']
     ''abc'' = Inr False"
  by code_simp

text \<open>
  Against C1 as it is worded. The query \<^verbatim>\<open>a.c\<close> returns the namespace \<^verbatim>\<open>abc\<close>, whose name
  does not contain \<^verbatim>\<open>a.c\<close>: the query is matched as a pattern. The query of \<^verbatim>\<open>b\<close>, a tab
  and \<^verbatim>\<open>c\<close> returns nothing, though the name \<^verbatim>\<open>abc\<close> contains the query with its
  whitespace removed: only spaces are removed.
\<close>

theorem ListNamespaces_pattern_not_substring:
  \<open>fst (ListNamespaces sample_lib
          (reply_adapter (Inr (ok_response ''{"namespaces":[{"name":"abc"}]}'')))
          (Some \<lparr>query_Name = ''a.c''\<rparr>) (fresh ())) = Returns ([to_Namespace (named ''abc'')], None)
   \<and> \<not> sublist (remove_whitespace ''a.c'') (otc_Name (named ''abc''))
   \<and> fst (ListNamespaces sample_lib
          (reply_adapter (Inr (ok_response ''{"namespaces":[{"name":"abc"}]}'')))
          (Some \<lparr>query_Name = [CHR ''b'', CHR 0x09, CHR ''c'']\<rparr>) (fresh ())) = Returns ([], None)
   \<and> sublist (remove_whitespace [CHR ''b'', CHR 0x09, CHR ''c'']) (otc_Name (named ''abc''))
   \<and> sample_Unmarshal_list ''{"namespaces":[{"name":"abc"}]}'' = Inr [named ''abc'']\<close>
proof -
  have "\<not> sublist ''a.c'' ''abc''" by code_simp
  then have 1: "\<not> sublist (remove_whitespace ''a.c'') (otc_Name (named ''abc''))"
    by (simp add: remove_whitespace_def named_def)
  have "sublist ''bc'' ''abc''" by code_simp
  then have 2: "sublist (remove_whitespace [CHR ''b'', CHR 0x09, CHR ''c'']) (otc_Name (named ''abc''))"
    by (simp add: remove_whitespace_def named_def)
  have 3: \<open>fst (ListNamespaces sample_lib
          (reply_adapter (Inr (ok_response ''{"namespaces":[{"name":"abc"}]}'')))
          (Some \<lparr>query_Name = [CHR ''b'', CHR 0x09, CHR ''c'']\<rparr>) (fresh ())) = Returns ([], None)\<close>
    by (simp add: ListNamespaces_def sample_defs sample_list_abc strip_spaces_def
        to_Namespace_def named_def tab_pattern_abc)
  from 1 2 3 list_abc_dot sample_list_abc show ?thesis by simp
qed

end
